theory Spec2Isabelle
  imports Main "HOL-Library.Sublist"
begin

section \<open>Host runtime: JSON values, event sources, timers\<close>

text \<open>
  The components run on a browser host. What the host provides is kept apart from the
  component code: values produced by \<^verbatim>\<open>JSON.parse\<close>, the table of \<^verbatim>\<open>EventSource\<close> objects
  and the table of timers created by \<^verbatim>\<open>setTimeout\<close>. Numbers are IEEE doubles; the
  components never compute with the numbers of a payload, so their type is the
  parameter \<open>'n\<close>.
\<close>

datatype 'n json =
    JNull
  | JBool bool
  | JNumber 'n
  | JString string
  | JArray "'n json list"
  | JObject "(string \<times> 'n json) list"

text \<open>The result of reading a property: \<^verbatim>\<open>undefined\<close> or a value.\<close>

datatype 'n jsval = Undefined | Defined "'n json"

text \<open>Exceptions raised inside the stream handlers.\<close>

datatype exn = SyntaxError | TypeError

text \<open>
  \<^verbatim>\<open>JSON.parse\<close> and the string conversion of a template literal belong to the host and
  are parameters of the handlers: \<open>JSON_parse h d = None\<close> is the \<^verbatim>\<open>SyntaxError\<close> thrown on
  a text that is not JSON.
\<close>

record 'n host =
  JSON_parse :: "string \<Rightarrow> 'n json option"
  ToString :: "'n jsval \<Rightarrow> string"

text \<open>
  \<^verbatim>\<open>data.frame\<close>: reading a property of \<^verbatim>\<open>null\<close> throws a \<^verbatim>\<open>TypeError\<close>; an object gives
  the value stored under the key or \<^verbatim>\<open>undefined\<close>; a boolean, number, string or array has
  no property of that name.
\<close>

fun frame_property :: "'n json \<Rightarrow> exn + 'n jsval" where
  "frame_property JNull = Inl TypeError"
| "frame_property (JObject kvs) =
     Inr (case map_of kvs ''frame'' of None \<Rightarrow> Undefined | Some v \<Rightarrow> Defined v)"
| "frame_property _ = Inr Undefined"

text \<open>
  An \<^verbatim>\<open>EventSource\<close> object is identified by its position in the host's table;
  \<^verbatim>\<open>new EventSource(url)\<close> appends an entry that is not closed (connecting or open),
  \<^verbatim>\<open>close()\<close> marks it closed.
\<close>

record event_source =
  es_url :: string
  es_closed :: bool

definition new_EventSource :: "string \<Rightarrow> event_source list \<Rightarrow> event_source list \<times> nat" where
  "new_EventSource u es = (es @ [\<lparr>es_url = u, es_closed = False\<rparr>], length es)"

definition es_close :: "nat \<Rightarrow> event_source list \<Rightarrow> event_source list" where
  "es_close i es = (if i < length es then es[i := (es ! i)\<lparr>es_closed := True\<rparr>] else es)"

definition is_open :: "event_source \<Rightarrow> bool" where
  "is_open e = (\<not> es_closed e)"

definition open_count :: "event_source list \<Rightarrow> nat" where
  "open_count es = length (filter is_open es)"

text \<open>
  A timer is identified by its position in the host's timer table. \<^verbatim>\<open>setTimeout\<close> appends
  a pending timer and returns its handle, \<^verbatim>\<open>clearTimeout\<close> cancels one; a timer that has
  fired is no longer pending, and cancelling a handle that names no timer does nothing.
  The only callback ever scheduled is the staleness callback, so a timer records its
  delay only.
\<close>

record timer =
  delay :: int
  pending :: bool

definition setTimeout :: "int \<Rightarrow> timer list \<Rightarrow> timer list \<times> nat" where
  "setTimeout d ts = (ts @ [\<lparr>delay = d, pending = True\<rparr>], length ts)"

definition clearTimeout :: "nat \<Rightarrow> timer list \<Rightarrow> timer list" where
  "clearTimeout t ts = (if t < length ts then ts[t := (ts ! t)\<lparr>pending := False\<rparr>] else ts)"

definition pending_count :: "timer list \<Rightarrow> nat" where
  "pending_count ts = length (filter pending ts)"

section \<open>Frame Stream Consumer (VideoStream)\<close>

record props =
  streamUrl :: string
  timeout :: "int option"

text \<open>\<^verbatim>\<open>withDefaults(defineProps<Props>(), { timeout: 5000 })\<close>\<close>

definition props_timeout :: "props \<Rightarrow> int" where
  "props_timeout p = (case timeout p of None \<Rightarrow> 5000 | Some t \<Rightarrow> t)"

datatype notification =
    Error string
  | Connected
  | Disconnected
  | StatusChanged bool

record html_image =
  src :: string

text \<open>
  The state of one component instance: its refs, its two handles, the notifications
  emitted so far (oldest first), the host tables the handles point into, and the
  element that \<^verbatim>\<open>document.getElementById('frame')\<close> finds, if any. The handles are an
  object or \<^verbatim>\<open>null\<close> (\<^verbatim>\<open>NodeJS.Timeout | null\<close>, \<^verbatim>\<open>EventSource | null\<close>), so the tests
  \<^verbatim>\<open>if (timeoutId)\<close> and \<^verbatim>\<open>if (frameSource)\<close> are tests against \<^verbatim>\<open>null\<close>. Output to the
  console is not part of the state.
\<close>

record video =
  isVideoUnavailable :: bool
  hasLastFrame :: bool
  isRunning :: bool
  timeoutId :: "nat option"
  frameSource :: "nat option"
  emitted :: "notification list"
  sources :: "event_source list"
  timers :: "timer list"
  frameElement :: "html_image option"

definition emit :: "notification \<Rightarrow> 'a video_scheme \<Rightarrow> 'a video_scheme" where
  "emit n s = s\<lparr>emitted := emitted s @ [n]\<rparr>"

text \<open>The state before \<^verbatim>\<open>onMounted\<close>; \<open>m\<close> holds the further refs of a component.\<close>

definition initial :: "html_image option \<Rightarrow> 'a \<Rightarrow> 'a video_scheme" where
  "initial el m =
     \<lparr>isVideoUnavailable = False, hasLastFrame = False, isRunning = False,
      timeoutId = None, frameSource = None, emitted = [], sources = [], timers = [],
      frameElement = el, \<dots> = m\<rparr>"

subsection \<open>startStream\<close>

text \<open>\<^verbatim>\<open>if (frameSource) { frameSource.close() }\<close>\<close>

definition close_prior :: "'a video_scheme \<Rightarrow> 'a video_scheme" where
  "close_prior s =
     (case frameSource s of
        None \<Rightarrow> s
      | Some i \<Rightarrow> s\<lparr>sources := es_close i (sources s)\<rparr>)"

text \<open>\<^verbatim>\<open>frameSource = new EventSource(props.streamUrl)\<close>\<close>

definition open_source :: "props \<Rightarrow> 'a video_scheme \<Rightarrow> 'a video_scheme" where
  "open_source p s =
     (case new_EventSource (streamUrl p) (sources s) of
        (es, i) \<Rightarrow> s\<lparr>sources := es, frameSource := Some i\<rparr>)"

definition startStream :: "props \<Rightarrow> 'a video_scheme \<Rightarrow> 'a video_scheme" where
  "startStream p s =
     emit (StatusChanged True) ((open_source p (close_prior s))\<lparr>isRunning := True\<rparr>)"

subsection \<open>The handlers attached by startStream\<close>

text \<open>
  The body of \<^verbatim>\<open>if (frameElement) { ... }\<close>. The template literal reads \<^verbatim>\<open>data.frame\<close>
  before anything is assigned, so a throw leaves the state as it was.
\<close>

definition render_frame :: "'n host \<Rightarrow> 'n json \<Rightarrow> 'a video_scheme \<Rightarrow> exn + 'a video_scheme" where
  "render_frame h data s =
     (case frameElement s of
        None \<Rightarrow> Inr s
      | Some el \<Rightarrow>
          (case frame_property data of
             Inl e \<Rightarrow> Inl e
           | Inr v \<Rightarrow>
               Inr (s\<lparr>frameElement := Some (el\<lparr>src := ''data:image/jpeg;base64,'' @ ToString h v\<rparr>),
                      hasLastFrame := True,
                      isVideoUnavailable := False\<rparr>)))"

text \<open>\<^verbatim>\<open>if (timeoutId) { clearTimeout(timeoutId) }\<close>\<close>

definition cancel_stale :: "'a video_scheme \<Rightarrow> 'a video_scheme" where
  "cancel_stale s =
     (case timeoutId s of
        None \<Rightarrow> s
      | Some t \<Rightarrow> s\<lparr>timers := clearTimeout t (timers s)\<rparr>)"

text \<open>\<^verbatim>\<open>timeoutId = setTimeout(() => { ... }, props.timeout)\<close>\<close>

definition schedule_stale :: "props \<Rightarrow> 'a video_scheme \<Rightarrow> 'a video_scheme" where
  "schedule_stale p s =
     (case setTimeout (props_timeout p) (timers s) of
        (ts, t) \<Rightarrow> s\<lparr>timers := ts, timeoutId := Some t\<rparr>)"

text \<open>The callback passed to \<^verbatim>\<open>setTimeout\<close>.\<close>

definition stale_callback :: "'a video_scheme \<Rightarrow> 'a video_scheme" where
  "stale_callback s = emit Disconnected (s\<lparr>isVideoUnavailable := True\<rparr>)"

text \<open>The \<^verbatim>\<open>try\<close> block of \<^verbatim>\<open>onmessage\<close>; \<open>d\<close> is \<^verbatim>\<open>event.data\<close>.\<close>

definition onmessage_try :: "props \<Rightarrow> 'n host \<Rightarrow> string \<Rightarrow> 'a video_scheme \<Rightarrow> exn + 'a video_scheme" where
  "onmessage_try p h d s =
     (case JSON_parse h d of
        None \<Rightarrow> Inl SyntaxError
      | Some data \<Rightarrow>
          (case render_frame h data s of
             Inl e \<Rightarrow> Inl e
           | Inr s1 \<Rightarrow> Inr (schedule_stale p (cancel_stale s1))))"

text \<open>Every throw of the \<^verbatim>\<open>try\<close> block happens before its first assignment, so the
  \<^verbatim>\<open>catch\<close> block runs on the state the handler was entered with.\<close>

definition onmessage :: "props \<Rightarrow> 'n host \<Rightarrow> string \<Rightarrow> 'a video_scheme \<Rightarrow> 'a video_scheme" where
  "onmessage p h d s =
     (case onmessage_try p h d s of
        Inr s' \<Rightarrow> s'
      | Inl e \<Rightarrow> emit (Error ''Failed to parse frame data'') (s\<lparr>isVideoUnavailable := True\<rparr>))"

definition onerror :: "'a video_scheme \<Rightarrow> 'a video_scheme" where
  "onerror s = emit (Error ''EventSource connection error'') (s\<lparr>isVideoUnavailable := True\<rparr>)"

definition onopen :: "'a video_scheme \<Rightarrow> 'a video_scheme" where
  "onopen s = emit Connected (s\<lparr>isVideoUnavailable := False\<rparr>)"

subsection \<open>stopStream and toggleStream\<close>

text \<open>\<^verbatim>\<open>if (frameSource) { frameSource.close(); frameSource = null }\<close>\<close>

definition close_current :: "'a video_scheme \<Rightarrow> 'a video_scheme" where
  "close_current s =
     (case frameSource s of
        None \<Rightarrow> s
      | Some i \<Rightarrow> s\<lparr>sources := es_close i (sources s), frameSource := None\<rparr>)"

text \<open>\<^verbatim>\<open>if (timeoutId) { clearTimeout(timeoutId); timeoutId = null }\<close>\<close>

definition clear_stale :: "'a video_scheme \<Rightarrow> 'a video_scheme" where
  "clear_stale s =
     (case timeoutId s of
        None \<Rightarrow> s
      | Some t \<Rightarrow> s\<lparr>timers := clearTimeout t (timers s), timeoutId := None\<rparr>)"

definition stopStream :: "'a video_scheme \<Rightarrow> 'a video_scheme" where
  "stopStream s =
     emit Disconnected
       (emit (StatusChanged False)
          ((clear_stale (close_current s))\<lparr>isRunning := False, isVideoUnavailable := True\<rparr>))"

definition toggleStream :: "props \<Rightarrow> 'a video_scheme \<Rightarrow> 'a video_scheme" where
  "toggleStream p s = (if isRunning s then stopStream s else startStream p s)"

subsection \<open>Runs of the component\<close>

text \<open>
  What can happen to a mounted component: its three functions are called, the host
  delivers a message, an error or an open confirmation from an event source that is
  not closed, a pending timer fires (the host retires it and runs the callback), or
  the document gains or loses the element with id \<^verbatim>\<open>frame\<close>. An event the host cannot
  deliver leaves the state as it is.
\<close>

datatype event =
    CallStart
  | CallStop
  | CallToggle
  | SourceMessage nat string
  | SourceError nat
  | SourceOpen nat
  | TimerFires nat
  | DocumentFrame "html_image option"

definition deliverable :: "nat \<Rightarrow> 'a video_scheme \<Rightarrow> bool" where
  "deliverable i s = (i < length (sources s) \<and> is_open (sources s ! i))"

definition fire :: "nat \<Rightarrow> 'a video_scheme \<Rightarrow> 'a video_scheme" where
  "fire t s =
     (if t < length (timers s) \<and> pending (timers s ! t)
      then stale_callback (s\<lparr>timers := clearTimeout t (timers s)\<rparr>)
      else s)"

fun step :: "props \<Rightarrow> 'n host \<Rightarrow> 'a video_scheme \<Rightarrow> event \<Rightarrow> 'a video_scheme" where
  "step p h s CallStart = startStream p s"
| "step p h s CallStop = stopStream s"
| "step p h s CallToggle = toggleStream p s"
| "step p h s (SourceMessage i d) = (if deliverable i s then onmessage p h d s else s)"
| "step p h s (SourceError i) = (if deliverable i s then onerror s else s)"
| "step p h s (SourceOpen i) = (if deliverable i s then onopen s else s)"
| "step p h s (TimerFires t) = fire t s"
| "step p h s (DocumentFrame el) = s\<lparr>frameElement := el\<rparr>"

definition run :: "props \<Rightarrow> 'n host \<Rightarrow> 'a video_scheme \<Rightarrow> event list \<Rightarrow> 'a video_scheme" where
  "run p h s evs = foldl (step p h) s evs"


section \<open>Mode/Reset Controller (the VideoStream variant with controls)\<close>

text \<open>
  The variant of the component that carries the control buttons has the same stream
  functions and three further refs. Its stream functions are the ones above, which are
  defined for every extension of the state.
\<close>

datatype mode = Idle | Chasing | Explosion

fun mode_name :: "mode \<Rightarrow> string" where
  "mode_name Idle = ''idle''"
| "mode_name Chasing = ''chasing''"
| "mode_name Explosion = ''explosion''"

record video_ctl = video +
  aggressiveMode :: mode
  isResetting :: bool
  isTogglingMode :: bool

definition initial_ctl :: "html_image option \<Rightarrow> video_ctl" where
  "initial_ctl el =
     initial el \<lparr>aggressiveMode = Idle, isResetting = False, isTogglingMode = False\<rparr>"

text \<open>
  A call of \<^verbatim>\<open>fetch\<close>: the request it sends and what the awaited promise settles to. The
  code reads \<^verbatim>\<open>response.ok\<close> and \<^verbatim>\<open>response.status\<close>. A rejection delivers the thrown
  value to \<^verbatim>\<open>catch\<close>, which only asks whether it is an \<^verbatim>\<open>Error\<close> and for its message.
\<close>

record request =
  req_url :: string
  req_method :: string
  req_headers :: "(string \<times> string) list"
  req_body :: "string option"

record response =
  ok :: bool
  status :: nat

datatype thrown = ErrorInstance string | OtherThrown

datatype fetch_outcome = Resolved response | Rejected thrown

text \<open>The decimal text a template literal gives for a status code.\<close>

fun string_of_nat :: "nat \<Rightarrow> string" where
  "string_of_nat n =
     (if n < 10 then [char_of (48 + n)]
      else string_of_nat (n div 10) @ [char_of (48 + n mod 10)])"

declare string_of_nat.simps [simp del]

text \<open>\<^verbatim>\<open>error instanceof Error ? error.message : 'Unknown error'\<close>\<close>

definition error_message :: "thrown \<Rightarrow> string" where
  "error_message e = (case e of ErrorInstance msg \<Rightarrow> msg | OtherThrown \<Rightarrow> ''Unknown error'')"

subsection \<open>resetState\<close>

text \<open>
  An \<^verbatim>\<open>async\<close> function runs up to its \<^verbatim>\<open>await\<close>, and resumes when the promise has
  settled; other callbacks may run in between. Each of the three control functions is
  therefore two functions: the call, which returns the request it has sent (or nothing,
  when it returned early), and the continuation, which takes the outcome of the request
  and the state at the time of resumption.
\<close>

definition resetState_request :: request where
  "resetState_request =
     \<lparr>req_url = ''http://localhost:8000/increment'', req_method = ''POST'',
      req_headers = [], req_body = None\<rparr>"

definition resetState :: "'a video_ctl_scheme \<Rightarrow> 'a video_ctl_scheme \<times> request option" where
  "resetState s =
     (if isResetting s then (s, None)
      else (s\<lparr>isResetting := True\<rparr>, Some resetState_request))"

text \<open>The rest of the \<^verbatim>\<open>try\<close> block, after the \<^verbatim>\<open>await\<close>.\<close>

definition resetState_try :: "fetch_outcome \<Rightarrow> 'a video_ctl_scheme \<Rightarrow> thrown + 'a video_ctl_scheme" where
  "resetState_try r s =
     (case r of
        Rejected e \<Rightarrow> Inl e
      | Resolved resp \<Rightarrow>
          if \<not> ok resp then Inl (ErrorInstance (''Reset failed: '' @ string_of_nat (status resp)))
          else Inr (emit (StatusChanged (isRunning s)) s))"

text \<open>\<^verbatim>\<open>try\<close>, then \<^verbatim>\<open>catch\<close> on a throw, then \<^verbatim>\<open>finally\<close>.\<close>

definition resetState_resumed :: "fetch_outcome \<Rightarrow> 'a video_ctl_scheme \<Rightarrow> 'a video_ctl_scheme" where
  "resetState_resumed r s =
     (let s1 = (case resetState_try r s of
                  Inr s' \<Rightarrow> s'
                | Inl e \<Rightarrow> emit (Error (''Reset state failed: '' @ error_message e)) s)
      in s1\<lparr>isResetting := False\<rparr>)"

subsection \<open>toggleAggressiveMode and setAggressiveMode\<close>

definition modes :: "mode list" where
  "modes = [Idle, Chasing, Explosion]"

text \<open>\<^verbatim>\<open>Array.prototype.indexOf\<close>: the first position of the element, or \<open>-1\<close>.\<close>

fun indexOf :: "'a list \<Rightarrow> 'a \<Rightarrow> int" where
  "indexOf [] x = - 1"
| "indexOf (y # ys) x =
     (if y = x then 0
      else (let i = indexOf ys x in if i < 0 then - 1 else i + 1))"

text \<open>
  \<^verbatim>\<open>modes[(modes.indexOf(aggressiveMode.value) + 1) % modes.length]\<close>. The left operand
  of \<^verbatim>\<open>%\<close> is never negative, so the remainder is \<open>mod\<close>.
\<close>

definition next_mode :: "mode \<Rightarrow> mode" where
  "next_mode m =
     (let currentIndex = indexOf modes m;
          nextIndex = (currentIndex + 1) mod int (length modes)
      in modes ! nat nextIndex)"

text \<open>\<^verbatim>\<open>JSON.stringify({ config_aggressive: mode })\<close>\<close>

definition config_body :: "mode \<Rightarrow> string" where
  \<open>config_body m = ''{"config_aggressive":"'' @ mode_name m @ ''"}''\<close>

definition config_request :: "mode \<Rightarrow> request" where
  "config_request m =
     \<lparr>req_url = ''http://localhost:8000/config'', req_method = ''POST'',
      req_headers = [(''Content-Type'', ''application/json'')],
      req_body = Some (config_body m)\<rparr>"

text \<open>The call returns the request together with \<^verbatim>\<open>newMode\<close>, which the continuation
  holds as a local constant.\<close>

definition toggleAggressiveMode ::
  "'a video_ctl_scheme \<Rightarrow> 'a video_ctl_scheme \<times> (request \<times> mode) option" where
  "toggleAggressiveMode s =
     (if isTogglingMode s then (s, None)
      else (let s1 = s\<lparr>isTogglingMode := True\<rparr>;
                newMode = next_mode (aggressiveMode s1)
            in (s1, Some (config_request newMode, newMode))))"

definition config_try :: "mode \<Rightarrow> fetch_outcome \<Rightarrow> 'a video_ctl_scheme \<Rightarrow> thrown + 'a video_ctl_scheme" where
  "config_try m r s =
     (case r of
        Rejected e \<Rightarrow> Inl e
      | Resolved resp \<Rightarrow>
          if \<not> ok resp then Inl (ErrorInstance (''Config update failed: '' @ string_of_nat (status resp)))
          else (let s1 = s\<lparr>aggressiveMode := m\<rparr> in Inr (emit (StatusChanged (isRunning s1)) s1)))"

definition toggleAggressiveMode_resumed ::
  "mode \<Rightarrow> fetch_outcome \<Rightarrow> 'a video_ctl_scheme \<Rightarrow> 'a video_ctl_scheme" where
  "toggleAggressiveMode_resumed newMode r s =
     (let s1 = (case config_try newMode r s of
                  Inr s' \<Rightarrow> s'
                | Inl e \<Rightarrow> emit (Error (''Toggle aggressive mode failed: '' @ error_message e)) s)
      in s1\<lparr>isTogglingMode := False\<rparr>)"

text \<open>A whole run of the function, when nothing else runs between the call and its
  continuation.\<close>

definition toggleAggressiveMode_alone ::
  "fetch_outcome \<Rightarrow> 'a video_ctl_scheme \<Rightarrow> 'a video_ctl_scheme" where
  "toggleAggressiveMode_alone r s =
     (case toggleAggressiveMode s of
        (s1, None) \<Rightarrow> s1
      | (s1, Some (rq, newMode)) \<Rightarrow> toggleAggressiveMode_resumed newMode r s1)"

definition setAggressiveMode ::
  "mode \<Rightarrow> 'a video_ctl_scheme \<Rightarrow> 'a video_ctl_scheme \<times> (request \<times> mode) option" where
  "setAggressiveMode m s =
     (if isTogglingMode s \<or> aggressiveMode s = m then (s, None)
      else (s\<lparr>isTogglingMode := True\<rparr>, Some (config_request m, m)))"

definition setAggressiveMode_resumed ::
  "mode \<Rightarrow> fetch_outcome \<Rightarrow> 'a video_ctl_scheme \<Rightarrow> 'a video_ctl_scheme" where
  "setAggressiveMode_resumed m r s =
     (let s1 = (case config_try m r s of
                  Inr s' \<Rightarrow> s'
                | Inl e \<Rightarrow> emit (Error (''Set aggressive mode failed: '' @ error_message e)) s)
      in s1\<lparr>isTogglingMode := False\<rparr>)"

section \<open>Metadata Stream Consumer (MetadataPanel)\<close>

record m_props =
  m_streamUrl :: string

datatype 'n m_notification =
    MError string
  | DataReceived "'n json"
  | MStatusChanged bool

text \<open>\<^verbatim>\<open>metadata\<close> is \<^verbatim>\<open>null\<close> or the value last parsed; \<^verbatim>\<open>null\<close> is \<open>JNull\<close>.\<close>

record 'n metadata_panel =
  metadata :: "'n json"
  m_isRunning :: bool
  metadataSource :: "nat option"
  m_emitted :: "'n m_notification list"
  m_sources :: "event_source list"

definition m_emit :: "'n m_notification \<Rightarrow> 'n metadata_panel \<Rightarrow> 'n metadata_panel" where
  "m_emit n s = s\<lparr>m_emitted := m_emitted s @ [n]\<rparr>"

definition m_initial :: "'n metadata_panel" where
  "m_initial =
     \<lparr>metadata = JNull, m_isRunning = False, metadataSource = None, m_emitted = [],
      m_sources = []\<rparr>"

text \<open>\<^verbatim>\<open>if (metadataSource) { metadataSource.close() }\<close>\<close>

definition m_close_prior :: "'n metadata_panel \<Rightarrow> 'n metadata_panel" where
  "m_close_prior s =
     (case metadataSource s of
        None \<Rightarrow> s
      | Some i \<Rightarrow> s\<lparr>m_sources := es_close i (m_sources s)\<rparr>)"

definition m_open_source :: "m_props \<Rightarrow> 'n metadata_panel \<Rightarrow> 'n metadata_panel" where
  "m_open_source p s =
     (case new_EventSource (m_streamUrl p) (m_sources s) of
        (es, i) \<Rightarrow> s\<lparr>m_sources := es, metadataSource := Some i\<rparr>)"

definition m_startStream :: "m_props \<Rightarrow> 'n metadata_panel \<Rightarrow> 'n metadata_panel" where
  "m_startStream p s =
     m_emit (MStatusChanged True) ((m_open_source p (m_close_prior s))\<lparr>m_isRunning := True\<rparr>)"

definition m_onmessage_try :: "'n host \<Rightarrow> string \<Rightarrow> 'n metadata_panel \<Rightarrow> exn + 'n metadata_panel" where
  "m_onmessage_try h d s =
     (case JSON_parse h d of
        None \<Rightarrow> Inl SyntaxError
      | Some data \<Rightarrow> Inr (m_emit (DataReceived data) (s\<lparr>metadata := data\<rparr>)))"

definition m_onmessage :: "'n host \<Rightarrow> string \<Rightarrow> 'n metadata_panel \<Rightarrow> 'n metadata_panel" where
  "m_onmessage h d s =
     (case m_onmessage_try h d s of
        Inr s' \<Rightarrow> s'
      | Inl e \<Rightarrow> m_emit (MError ''Failed to parse metadata'') s)"

definition m_onerror :: "'n metadata_panel \<Rightarrow> 'n metadata_panel" where
  "m_onerror s = m_emit (MError ''Metadata connection error'') s"

definition m_close_current :: "'n metadata_panel \<Rightarrow> 'n metadata_panel" where
  "m_close_current s =
     (case metadataSource s of
        None \<Rightarrow> s
      | Some i \<Rightarrow> s\<lparr>m_sources := es_close i (m_sources s), metadataSource := None\<rparr>)"

definition m_stopStream :: "'n metadata_panel \<Rightarrow> 'n metadata_panel" where
  "m_stopStream s = m_emit (MStatusChanged False) ((m_close_current s)\<lparr>m_isRunning := False\<rparr>)"

definition m_toggleStream :: "m_props \<Rightarrow> 'n metadata_panel \<Rightarrow> 'n metadata_panel" where
  "m_toggleStream p s = (if m_isRunning s then m_stopStream s else m_startStream p s)"

datatype m_event =
    MCallStart
  | MCallStop
  | MCallToggle
  | MSourceMessage nat string
  | MSourceError nat

definition m_deliverable :: "nat \<Rightarrow> 'n metadata_panel \<Rightarrow> bool" where
  "m_deliverable i s = (i < length (m_sources s) \<and> is_open (m_sources s ! i))"

fun m_step :: "m_props \<Rightarrow> 'n host \<Rightarrow> 'n metadata_panel \<Rightarrow> m_event \<Rightarrow> 'n metadata_panel" where
  "m_step p h s MCallStart = m_startStream p s"
| "m_step p h s MCallStop = m_stopStream s"
| "m_step p h s MCallToggle = m_toggleStream p s"
| "m_step p h s (MSourceMessage i d) = (if m_deliverable i s then m_onmessage h d s else s)"
| "m_step p h s (MSourceError i) = (if m_deliverable i s then m_onerror s else s)"

definition m_run :: "m_props \<Rightarrow> 'n host \<Rightarrow> 'n metadata_panel \<Rightarrow> m_event list \<Rightarrow> 'n metadata_panel" where
  "m_run p h s evs = foldl (m_step p h) s evs"

section \<open>Page Composer (IndexPage)\<close>

definition baseUrl :: string where
  "baseUrl = ''http://192.168.66.120:8000''"

definition frameStreamUrl :: string where
  "frameStreamUrl = baseUrl @ ''/stream/frame''"

definition metadataStreamUrl :: string where
  "metadataStreamUrl = baseUrl @ ''/stream/metadata''"

text \<open>The props the page passes: the stream URL only, so the timeout is the default.\<close>

definition page_video_props :: props where
  "page_video_props = \<lparr>streamUrl = frameStreamUrl, timeout = None\<rparr>"

definition page_metadata_props :: m_props where
  "page_metadata_props = \<lparr>m_streamUrl = metadataStreamUrl\<rparr>"

section \<open>Invariants of the runs\<close>

text \<open>
  The handle \<open>timeoutId\<close> is the only way to a pending timer, and it is the timer
  scheduled last.
\<close>

definition timer_inv :: "'a video_scheme \<Rightarrow> bool" where
  "timer_inv s \<longleftrightarrow>
     (\<forall>t \<in> {..<length (timers s)}. pending (timers s ! t) \<longrightarrow> timeoutId s = Some t) \<and>
     (case timeoutId s of None \<Rightarrow> True | Some t \<Rightarrow> Suc t = length (timers s))"

text \<open>The handle \<open>frameSource\<close> is the only way to an event source that is not closed.\<close>

definition source_inv :: "'a video_scheme \<Rightarrow> bool" where
  "source_inv s \<longleftrightarrow>
     (\<forall>i \<in> {..<length (sources s)}. is_open (sources s ! i) \<longrightarrow> frameSource s = Some i) \<and>
     (case frameSource s of None \<Rightarrow> True | Some i \<Rightarrow> i < length (sources s))"

definition m_source_inv :: "'n metadata_panel \<Rightarrow> bool" where
  "m_source_inv s \<longleftrightarrow>
     (\<forall>i \<in> {..<length (m_sources s)}. is_open (m_sources s ! i) \<longrightarrow> metadataSource s = Some i) \<and>
     (case metadataSource s of None \<Rightarrow> True | Some i \<Rightarrow> i < length (m_sources s))"

text \<open>The timer table after \<^verbatim>\<open>if (timeoutId) clearTimeout(timeoutId)\<close>, from the handle.\<close>

definition clearTimeout_handle :: "nat option \<Rightarrow> timer list \<Rightarrow> timer list" where
  "clearTimeout_handle tid ts = (case tid of None \<Rightarrow> ts | Some t \<Rightarrow> clearTimeout t ts)"

section \<open>Sample inputs\<close>

text \<open>
  Payloads as they arrive on the streams, and a host that agrees with the browser on
  them: the first two are JSON texts, the third is cut off after the colon. Numbers are
  integers here.
\<close>

definition frame_payload :: string where
  \<open>frame_payload = ''{"frame":"QUJD"}''\<close>

definition metadata_payload :: string where
  \<open>metadata_payload = ''{"frame_count":10}''\<close>

definition truncated_payload :: string where
  \<open>truncated_payload = ''{"frame":''\<close>

definition sample_host :: "int host" where
  "sample_host =
     \<lparr>JSON_parse = (\<lambda>d.
        if d = frame_payload then Some (JObject [(''frame'', JString ''QUJD'')])
        else if d = metadata_payload then Some (JObject [(''frame_count'', JNumber 10)])
        else None),
      ToString = (\<lambda>v. case v of Defined (JString b) \<Rightarrow> b | _ \<Rightarrow> ''undefined'')\<rparr>"

text \<open>A mounted page: the image element is in the document and has no source yet.\<close>

definition blank_image :: html_image where
  "blank_image = \<lparr>src = []\<rparr>"

section \<open>Host tables\<close>

lemma filter_at_most_one:
  "(\<And>i. i < length xs \<Longrightarrow> P (xs ! i) \<Longrightarrow> i = k) \<Longrightarrow> length (filter P xs) \<le> 1"
proof (induction xs arbitrary: k)
  case Nil
  then show ?case by simp
next
  case (Cons x xs)
  show ?case
  proof (cases "P x")
    case True
    have k0: "k = 0" using Cons.prems [of 0] True by simp
    have "\<not> P (xs ! i)" if "i < length xs" for i
    proof
      assume "P (xs ! i)"
      with that have "Suc i = k" using Cons.prems [of "Suc i"] by simp
      with k0 show False by simp
    qed
    then have "\<forall>y \<in> set xs. \<not> P y"
      by (metis in_set_conv_nth)
    then have "filter P xs = []"
      by (simp add: filter_empty_conv)
    with True show ?thesis by simp
  next
    case False
    have "length (filter P xs) \<le> 1"
    proof (rule Cons.IH [of "k - 1"])
      fix i assume a: "i < length xs" "P (xs ! i)"
      have "Suc i = k" using Cons.prems [of "Suc i"] a by simp
      then show "i = k - 1" by simp
    qed
    with False show ?thesis by simp
  qed
qed

lemma filter_none:
  assumes "\<And>i. i < length xs \<Longrightarrow> \<not> P (xs ! i)"
  shows "filter P xs = []"
proof -
  have "\<forall>y \<in> set xs. \<not> P y"
    using assms by (metis in_set_conv_nth)
  then show ?thesis
    by (simp add: filter_empty_conv)
qed

lemma clearTimeout_nth:
  "t < length ts \<Longrightarrow>
     clearTimeout k ts ! t = (if t = k then (ts ! t)\<lparr>pending := False\<rparr> else ts ! t)"
  by (simp add: clearTimeout_def nth_list_update)

lemma length_clearTimeout [simp]: "length (clearTimeout k ts) = length ts"
  by (simp add: clearTimeout_def)

lemma es_close_nth:
  "i < length es \<Longrightarrow>
     es_close k es ! i = (if i = k then (es ! i)\<lparr>es_closed := True\<rparr> else es ! i)"
  by (simp add: es_close_def nth_list_update)

lemma length_es_close [simp]: "length (es_close k es) = length es"
  by (simp add: es_close_def)

text \<open>Cancelling the only timer that may be pending leaves none pending; the same for
  closing the only event source that may be open.\<close>

lemma clearTimeout_only:
  assumes "\<And>u. u < length ts \<Longrightarrow> pending (ts ! u) \<Longrightarrow> u = k" and "t < length ts"
  shows "\<not> pending (clearTimeout k ts ! t)"
proof (cases "t = k")
  case True
  with assms(2) show ?thesis by (simp add: clearTimeout_nth)
next
  case False
  with assms have "\<not> pending (ts ! t)" by blast
  with False assms(2) show ?thesis by (simp add: clearTimeout_nth)
qed

lemma es_close_only:
  assumes "\<And>j. j < length es \<Longrightarrow> is_open (es ! j) \<Longrightarrow> j = k" and "i < length es"
  shows "\<not> is_open (es_close k es ! i)"
proof (cases "i = k")
  case True
  with assms(2) show ?thesis by (simp add: es_close_nth is_open_def)
next
  case False
  with assms have "\<not> is_open (es ! i)" by blast
  with False assms(2) show ?thesis by (simp add: es_close_nth)
qed

section \<open>What each function of the Frame Stream Consumer touches\<close>

lemma emit_fields [simp]:
  "timers (emit n s) = timers s"
  "timeoutId (emit n s) = timeoutId s"
  "sources (emit n s) = sources s"
  "frameSource (emit n s) = frameSource s"
  "isVideoUnavailable (emit n s) = isVideoUnavailable s"
  "hasLastFrame (emit n s) = hasLastFrame s"
  "isRunning (emit n s) = isRunning s"
  "frameElement (emit n s) = frameElement s"
  "emitted (emit n s) = emitted s @ [n]"
  by (simp_all add: emit_def)

lemma close_prior_fields [simp]:
  "length (sources (close_prior s)) = length (sources s)"
  "frameSource (close_prior s) = frameSource s"
  "timers (close_prior s) = timers s"
  "timeoutId (close_prior s) = timeoutId s"
  by (cases "frameSource s"; simp add: close_prior_def)+

lemma startStream_fields:
  "sources (startStream p s) =
     sources (close_prior s) @ [\<lparr>es_url = streamUrl p, es_closed = False\<rparr>]"
  "frameSource (startStream p s) = Some (length (sources s))"
  "timers (startStream p s) = timers s"
  "timeoutId (startStream p s) = timeoutId s"
  by (simp_all add: startStream_def open_source_def new_EventSource_def)

lemma close_current_fields [simp]:
  "length (sources (close_current s)) = length (sources s)"
  "frameSource (close_current s) = None"
  "timers (close_current s) = timers s"
  "timeoutId (close_current s) = timeoutId s"
  by (cases "frameSource s"; simp add: close_current_def)+

lemma clear_stale_fields [simp]:
  "sources (clear_stale s) = sources s"
  "frameSource (clear_stale s) = frameSource s"
  "timeoutId (clear_stale s) = None"
  "length (timers (clear_stale s)) = length (timers s)"
  by (cases "timeoutId s"; simp add: clear_stale_def)+

lemma stopStream_fields [simp]:
  "sources (stopStream s) = sources (close_current s)"
  "frameSource (stopStream s) = None"
  "timers (stopStream s) = timers (clear_stale (close_current s))"
  "timeoutId (stopStream s) = None"
  by (simp_all add: stopStream_def)

lemma cancel_stale_fields [simp]:
  "length (timers (cancel_stale s)) = length (timers s)"
  "timeoutId (cancel_stale s) = timeoutId s"
  "sources (cancel_stale s) = sources s"
  "frameSource (cancel_stale s) = frameSource s"
  "isVideoUnavailable (cancel_stale s) = isVideoUnavailable s"
  "hasLastFrame (cancel_stale s) = hasLastFrame s"
  "isRunning (cancel_stale s) = isRunning s"
  "frameElement (cancel_stale s) = frameElement s"
  "emitted (cancel_stale s) = emitted s"
  by (cases "timeoutId s"; simp add: cancel_stale_def)+

lemma schedule_stale_fields [simp]:
  "timers (schedule_stale p s) = timers s @ [\<lparr>delay = props_timeout p, pending = True\<rparr>]"
  "timeoutId (schedule_stale p s) = Some (length (timers s))"
  "sources (schedule_stale p s) = sources s"
  "frameSource (schedule_stale p s) = frameSource s"
  "isVideoUnavailable (schedule_stale p s) = isVideoUnavailable s"
  "hasLastFrame (schedule_stale p s) = hasLastFrame s"
  "isRunning (schedule_stale p s) = isRunning s"
  "frameElement (schedule_stale p s) = frameElement s"
  "emitted (schedule_stale p s) = emitted s"
  by (simp_all add: schedule_stale_def setTimeout_def)

lemma render_frame_fields:
  assumes "render_frame h data s = Inr s1"
  shows "timers s1 = timers s" and "timeoutId s1 = timeoutId s"
    and "sources s1 = sources s" and "frameSource s1 = frameSource s"
    and "isRunning s1 = isRunning s" and "emitted s1 = emitted s"
  using assms
  by (cases "frameElement s"; cases "frame_property data"; auto simp: render_frame_def)+

text \<open>The two ways through the message handler.\<close>

lemma onmessage_cases:
  obtains (thrown) e where "onmessage_try p h d s = Inl e"
      and "onmessage p h d s = emit (Error ''Failed to parse frame data'') (s\<lparr>isVideoUnavailable := True\<rparr>)"
  | (processed) data s1 where "JSON_parse h d = Some data" and "render_frame h data s = Inr s1"
      and "onmessage_try p h d s = Inr (schedule_stale p (cancel_stale s1))"
      and "onmessage p h d s = schedule_stale p (cancel_stale s1)"
proof (cases "onmessage_try p h d s")
  case (Inl e)
  then show ?thesis
    by (intro thrown [of e]) (simp_all add: onmessage_def)
next
  case (Inr s')
  then obtain data where d: "JSON_parse h d = Some data"
    by (cases "JSON_parse h d") (simp_all add: onmessage_try_def)
  with Inr obtain s1 where r: "render_frame h data s = Inr s1"
    by (cases "render_frame h data s") (simp_all add: onmessage_try_def)
  from d r show ?thesis
    by (intro processed [of data s1]) (simp_all add: onmessage_def onmessage_try_def)
qed

lemma onmessage_sources [simp]:
  "sources (onmessage p h d s) = sources s"
  "frameSource (onmessage p h d s) = frameSource s"
  by (cases rule: onmessage_cases [of p h d s]; simp add: render_frame_fields)+

lemma fire_sources [simp]:
  "sources (fire t s) = sources s" "frameSource (fire t s) = frameSource s"
  by (simp_all add: fire_def stale_callback_def)

section \<open>The staleness timer invariant\<close>

lemma timer_invI:
  assumes "\<And>t. t < length (timers s) \<Longrightarrow> pending (timers s ! t) \<Longrightarrow> timeoutId s = Some t"
    and "\<And>t. timeoutId s = Some t \<Longrightarrow> Suc t = length (timers s)"
  shows "timer_inv s"
  unfolding timer_inv_def
proof (intro conjI ballI impI)
  fix t assume "t \<in> {..<length (timers s)}" "pending (timers s ! t)"
  then have "t < length (timers s)" "pending (timers s ! t)" by simp_all
  then show "timeoutId s = Some t" by (rule assms(1))
next
  show "case timeoutId s of None \<Rightarrow> True | Some t \<Rightarrow> Suc t = length (timers s)"
    by (cases "timeoutId s") (simp_all add: assms(2))
qed

lemma timer_inv_pendingD:
  "timer_inv s \<Longrightarrow> t < length (timers s) \<Longrightarrow> pending (timers s ! t) \<Longrightarrow> timeoutId s = Some t"
  unfolding timer_inv_def by (simp add: Ball_def)

lemma timer_inv_latestD:
  "timer_inv s \<Longrightarrow> timeoutId s = Some t \<Longrightarrow> Suc t = length (timers s)"
  unfolding timer_inv_def by simp

lemma timer_inv_cong:
  assumes "timers s' = timers s" and "timeoutId s' = timeoutId s" and "timer_inv s"
  shows "timer_inv s'"
  using assms(3) unfolding timer_inv_def assms(1,2) .

lemma timer_inv_initial: "timer_inv (initial el m)"
  by (rule timer_invI) (simp_all add: initial_def)

lemma timer_inv_unset:
  assumes "timer_inv s" and "timeoutId s = None" and "t < length (timers s)"
  shows "\<not> pending (timers s ! t)"
  using timer_inv_pendingD [OF assms(1) assms(3)] assms(2) by auto

lemma cancel_stale_none:
  assumes "timer_inv s" and "t < length (timers s)"
  shows "\<not> pending (timers (cancel_stale s) ! t)"
proof (cases "timeoutId s")
  case None
  with assms show ?thesis
    by (simp add: cancel_stale_def timer_inv_unset)
next
  case (Some k)
  have "\<not> pending (clearTimeout k (timers s) ! t)"
  proof (rule clearTimeout_only [OF _ assms(2)])
    fix u assume "u < length (timers s)" "pending (timers s ! u)"
    with assms(1) have "timeoutId s = Some u" by (rule timer_inv_pendingD)
    with Some show "u = k" by simp
  qed
  with Some show ?thesis
    by (simp add: cancel_stale_def)
qed

lemma clear_stale_none:
  assumes "timer_inv s" and "t < length (timers s)"
  shows "\<not> pending (timers (clear_stale s) ! t)"
proof (cases "timeoutId s")
  case None
  with assms show ?thesis
    by (simp add: clear_stale_def timer_inv_unset)
next
  case (Some k)
  have "\<not> pending (clearTimeout k (timers s) ! t)"
  proof (rule clearTimeout_only [OF _ assms(2)])
    fix u assume "u < length (timers s)" "pending (timers s ! u)"
    with assms(1) have "timeoutId s = Some u" by (rule timer_inv_pendingD)
    with Some show "u = k" by simp
  qed
  with Some show ?thesis
    by (simp add: clear_stale_def)
qed

lemma reschedule_old_not_pending:
  assumes "timer_inv s" and "t < length (timers s)"
  shows "\<not> pending (timers (schedule_stale p (cancel_stale s)) ! t)"
  using cancel_stale_none [OF assms] assms(2) by (simp add: nth_append)

lemma timer_inv_reschedule:
  assumes "timer_inv s"
  shows "timer_inv (schedule_stale p (cancel_stale s))"
proof (rule timer_invI)
  fix t
  assume lt: "t < length (timers (schedule_stale p (cancel_stale s)))"
    and pe: "pending (timers (schedule_stale p (cancel_stale s)) ! t)"
  have "\<not> t < length (timers s)"
    using reschedule_old_not_pending [OF assms] pe by blast
  with lt have "t = length (timers s)" by simp
  then show "timeoutId (schedule_stale p (cancel_stale s)) = Some t" by simp
next
  fix t
  assume "timeoutId (schedule_stale p (cancel_stale s)) = Some t"
  then show "Suc t = length (timers (schedule_stale p (cancel_stale s)))" by simp
qed

lemma timer_inv_onmessage:
  assumes "timer_inv s"
  shows "timer_inv (onmessage p h d s)"
proof (cases rule: onmessage_cases [of p h d s])
  case (thrown e)
  show ?thesis
    unfolding thrown(2) using assms by (rule timer_inv_cong [rotated -1]) simp_all
next
  case (processed data s1)
  have "timer_inv s1"
    using assms by (rule timer_inv_cong [rotated -1]) (simp_all add: render_frame_fields [OF processed(2)])
  then show ?thesis
    unfolding processed(4) by (rule timer_inv_reschedule)
qed

lemma timer_inv_startStream: "timer_inv s \<Longrightarrow> timer_inv (startStream p s)"
  by (erule timer_inv_cong [rotated -1]) (simp_all add: startStream_fields)

lemma timer_inv_stopStream:
  assumes "timer_inv s"
  shows "timer_inv (stopStream s)"
proof (rule timer_invI)
  fix t
  assume lt: "t < length (timers (stopStream s))" and pe: "pending (timers (stopStream s) ! t)"
  have "timer_inv (close_current s)"
    using assms by (rule timer_inv_cong [rotated -1]) simp_all
  from clear_stale_none [OF this, of t] lt pe show "timeoutId (stopStream s) = Some t"
    by simp
next
  fix t
  assume "timeoutId (stopStream s) = Some t"
  then show "Suc t = length (timers (stopStream s))" by simp
qed

lemma timer_inv_fire:
  assumes "timer_inv s"
  shows "timer_inv (fire t s)"
proof (cases "t < length (timers s) \<and> pending (timers s ! t)")
  case False
  then have "fire t s = s" by (auto simp: fire_def)
  with assms show ?thesis by simp
next
  case True
  then have eq: "fire t s = stale_callback (s\<lparr>timers := clearTimeout t (timers s)\<rparr>)"
    by (simp add: fire_def)
  from True assms have k: "timeoutId s = Some t"
    by (simp add: timer_inv_pendingD)
  have none: "\<not> pending (clearTimeout t (timers s) ! u)" if "u < length (timers s)" for u
  proof (rule clearTimeout_only [OF _ that])
    fix v assume "v < length (timers s)" "pending (timers s ! v)"
    with assms have "timeoutId s = Some v" by (rule timer_inv_pendingD)
    with k show "v = t" by simp
  qed
  show ?thesis
  proof (rule timer_invI)
    fix u
    assume "u < length (timers (fire t s))" and "pending (timers (fire t s) ! u)"
    with none [of u] show "timeoutId (fire t s) = Some u"
      by (simp add: eq stale_callback_def)
  next
    fix u
    assume "timeoutId (fire t s) = Some u"
    then have "timeoutId s = Some u" by (simp add: eq stale_callback_def)
    with assms have "Suc u = length (timers s)" by (rule timer_inv_latestD)
    then show "Suc u = length (timers (fire t s))" by (simp add: eq stale_callback_def)
  qed
qed

lemma timer_inv_step:
  assumes "timer_inv s"
  shows "timer_inv (step p h s ev)"
proof (cases ev)
  case CallStart
  with assms show ?thesis by (simp add: timer_inv_startStream)
next
  case CallStop
  with assms show ?thesis by (simp add: timer_inv_stopStream)
next
  case CallToggle
  with assms show ?thesis by (simp add: toggleStream_def timer_inv_startStream timer_inv_stopStream)
next
  case (SourceMessage i d)
  with assms show ?thesis by (simp add: timer_inv_onmessage)
next
  case (SourceError i)
  have "timer_inv (onerror s)"
    using assms by (rule timer_inv_cong [rotated -1]) (simp_all add: onerror_def)
  with assms SourceError show ?thesis by simp
next
  case (SourceOpen i)
  have "timer_inv (onopen s)"
    using assms by (rule timer_inv_cong [rotated -1]) (simp_all add: onopen_def)
  with assms SourceOpen show ?thesis by simp
next
  case (TimerFires t)
  with assms show ?thesis by (simp add: timer_inv_fire)
next
  case (DocumentFrame el)
  have "timer_inv (s\<lparr>frameElement := el\<rparr>)"
    using assms by (rule timer_inv_cong [rotated -1]) simp_all
  with DocumentFrame show ?thesis by simp
qed

lemma timer_inv_run: "timer_inv s \<Longrightarrow> timer_inv (run p h s evs)"
  unfolding run_def by (induction evs arbitrary: s) (simp_all add: timer_inv_step)

lemma timer_inv_pending_count:
  assumes "timer_inv s"
  shows "pending_count (timers s) \<le> 1"
proof -
  have "t = the (timeoutId s)" if "t < length (timers s)" "pending (timers s ! t)" for t
    using timer_inv_pendingD [OF assms that] by simp
  then show ?thesis
    unfolding pending_count_def by (rule filter_at_most_one)
qed

section \<open>The connection invariant of the Frame Stream Consumer\<close>

lemma source_invI:
  assumes "\<And>i. i < length (sources s) \<Longrightarrow> is_open (sources s ! i) \<Longrightarrow> frameSource s = Some i"
    and "\<And>i. frameSource s = Some i \<Longrightarrow> i < length (sources s)"
  shows "source_inv s"
  unfolding source_inv_def
proof (intro conjI ballI impI)
  fix i assume "i \<in> {..<length (sources s)}" "is_open (sources s ! i)"
  then have "i < length (sources s)" "is_open (sources s ! i)" by simp_all
  then show "frameSource s = Some i" by (rule assms(1))
next
  show "case frameSource s of None \<Rightarrow> True | Some i \<Rightarrow> i < length (sources s)"
    by (cases "frameSource s") (simp_all add: assms(2))
qed

lemma source_inv_openD:
  "source_inv s \<Longrightarrow> i < length (sources s) \<Longrightarrow> is_open (sources s ! i) \<Longrightarrow> frameSource s = Some i"
  unfolding source_inv_def by (simp add: Ball_def)

lemma source_inv_handleD:
  "source_inv s \<Longrightarrow> frameSource s = Some i \<Longrightarrow> i < length (sources s)"
  unfolding source_inv_def by simp

lemma source_inv_cong:
  assumes "sources s' = sources s" and "frameSource s' = frameSource s" and "source_inv s"
  shows "source_inv s'"
  using assms(3) unfolding source_inv_def assms(1,2) .

lemma source_inv_initial: "source_inv (initial el m)"
  by (rule source_invI) (simp_all add: initial_def)

lemma source_inv_unset:
  assumes "source_inv s" and "frameSource s = None" and "i < length (sources s)"
  shows "\<not> is_open (sources s ! i)"
  using source_inv_openD [OF assms(1) assms(3)] assms(2) by auto

lemma close_prior_none:
  assumes "source_inv s" and "i < length (sources s)"
  shows "\<not> is_open (sources (close_prior s) ! i)"
proof (cases "frameSource s")
  case None
  with assms show ?thesis
    by (simp add: close_prior_def source_inv_unset)
next
  case (Some k)
  have "\<not> is_open (es_close k (sources s) ! i)"
  proof (rule es_close_only [OF _ assms(2)])
    fix j assume "j < length (sources s)" "is_open (sources s ! j)"
    with assms(1) have "frameSource s = Some j" by (rule source_inv_openD)
    with Some show "j = k" by simp
  qed
  with Some show ?thesis
    by (simp add: close_prior_def)
qed

lemma close_current_none:
  assumes "source_inv s" and "i < length (sources s)"
  shows "\<not> is_open (sources (close_current s) ! i)"
proof (cases "frameSource s")
  case None
  with assms show ?thesis
    by (simp add: close_current_def source_inv_unset)
next
  case (Some k)
  have "\<not> is_open (es_close k (sources s) ! i)"
  proof (rule es_close_only [OF _ assms(2)])
    fix j assume "j < length (sources s)" "is_open (sources s ! j)"
    with assms(1) have "frameSource s = Some j" by (rule source_inv_openD)
    with Some show "j = k" by simp
  qed
  with Some show ?thesis
    by (simp add: close_current_def)
qed

lemma source_inv_startStream:
  assumes "source_inv s"
  shows "source_inv (startStream p s)"
proof (rule source_invI)
  fix i
  assume lt: "i < length (sources (startStream p s))"
    and op: "is_open (sources (startStream p s) ! i)"
  have "\<not> i < length (sources s)"
    using close_prior_none [OF assms, of i] op by (auto simp: startStream_fields nth_append)
  with lt have "i = length (sources s)"
    by (simp add: startStream_fields)
  then show "frameSource (startStream p s) = Some i"
    by (simp add: startStream_fields)
next
  fix i
  assume "frameSource (startStream p s) = Some i"
  then show "i < length (sources (startStream p s))"
    by (auto simp: startStream_fields)
qed

lemma source_inv_stopStream:
  assumes "source_inv s"
  shows "source_inv (stopStream s)"
proof (rule source_invI)
  fix i
  assume "i < length (sources (stopStream s))" and "is_open (sources (stopStream s) ! i)"
  with close_current_none [OF assms, of i] show "frameSource (stopStream s) = Some i"
    by simp
next
  fix i
  assume "frameSource (stopStream s) = Some i"
  then show "i < length (sources (stopStream s))" by simp
qed

lemma source_inv_step:
  assumes "source_inv s"
  shows "source_inv (step p h s ev)"
proof (cases ev)
  case CallStart
  with assms show ?thesis by (simp add: source_inv_startStream)
next
  case CallStop
  with assms show ?thesis by (simp add: source_inv_stopStream)
next
  case CallToggle
  with assms show ?thesis by (simp add: toggleStream_def source_inv_startStream source_inv_stopStream)
next
  case (SourceMessage i d)
  have "source_inv (onmessage p h d s)"
    using assms by (rule source_inv_cong [rotated -1]) simp_all
  with assms SourceMessage show ?thesis by simp
next
  case (SourceError i)
  have "source_inv (onerror s)"
    using assms by (rule source_inv_cong [rotated -1]) (simp_all add: onerror_def)
  with assms SourceError show ?thesis by simp
next
  case (SourceOpen i)
  have "source_inv (onopen s)"
    using assms by (rule source_inv_cong [rotated -1]) (simp_all add: onopen_def)
  with assms SourceOpen show ?thesis by simp
next
  case (TimerFires t)
  have "source_inv (fire t s)"
    using assms by (rule source_inv_cong [rotated -1]) simp_all
  with TimerFires show ?thesis by simp
next
  case (DocumentFrame el)
  have "source_inv (s\<lparr>frameElement := el\<rparr>)"
    using assms by (rule source_inv_cong [rotated -1]) simp_all
  with DocumentFrame show ?thesis by simp
qed

lemma source_inv_run: "source_inv s \<Longrightarrow> source_inv (run p h s evs)"
  unfolding run_def by (induction evs arbitrary: s) (simp_all add: source_inv_step)

lemma source_inv_open_count:
  assumes "source_inv s"
  shows "open_count (sources s) \<le> 1"
proof -
  have "i = the (frameSource s)" if "i < length (sources s)" "is_open (sources s ! i)" for i
    using source_inv_openD [OF assms that] by simp
  then show ?thesis
    unfolding open_count_def by (rule filter_at_most_one)
qed

section \<open>The connection invariant of the Metadata Stream Consumer\<close>

lemma m_emit_fields [simp]:
  "m_sources (m_emit n s) = m_sources s"
  "metadataSource (m_emit n s) = metadataSource s"
  "metadata (m_emit n s) = metadata s"
  "m_isRunning (m_emit n s) = m_isRunning s"
  "m_emitted (m_emit n s) = m_emitted s @ [n]"
  by (simp_all add: m_emit_def)

lemma m_close_prior_fields [simp]:
  "length (m_sources (m_close_prior s)) = length (m_sources s)"
  "metadataSource (m_close_prior s) = metadataSource s"
  by (cases "metadataSource s"; simp add: m_close_prior_def)+

lemma m_startStream_fields:
  "m_sources (m_startStream p s) =
     m_sources (m_close_prior s) @ [\<lparr>es_url = m_streamUrl p, es_closed = False\<rparr>]"
  "metadataSource (m_startStream p s) = Some (length (m_sources s))"
  by (simp_all add: m_startStream_def m_open_source_def new_EventSource_def)

lemma m_close_current_fields [simp]:
  "length (m_sources (m_close_current s)) = length (m_sources s)"
  "metadataSource (m_close_current s) = None"
  by (cases "metadataSource s"; simp add: m_close_current_def)+

lemma m_stopStream_fields [simp]:
  "m_sources (m_stopStream s) = m_sources (m_close_current s)"
  "metadataSource (m_stopStream s) = None"
  by (simp_all add: m_stopStream_def)

lemma m_onmessage_fields [simp]:
  "m_sources (m_onmessage h d s) = m_sources s"
  "metadataSource (m_onmessage h d s) = metadataSource s"
  "m_isRunning (m_onmessage h d s) = m_isRunning s"
  by (cases "JSON_parse h d"; simp add: m_onmessage_def m_onmessage_try_def)+

lemma m_source_invI:
  assumes "\<And>i. i < length (m_sources s) \<Longrightarrow> is_open (m_sources s ! i) \<Longrightarrow> metadataSource s = Some i"
    and "\<And>i. metadataSource s = Some i \<Longrightarrow> i < length (m_sources s)"
  shows "m_source_inv s"
  unfolding m_source_inv_def
proof (intro conjI ballI impI)
  fix i assume "i \<in> {..<length (m_sources s)}" "is_open (m_sources s ! i)"
  then have "i < length (m_sources s)" "is_open (m_sources s ! i)" by simp_all
  then show "metadataSource s = Some i" by (rule assms(1))
next
  show "case metadataSource s of None \<Rightarrow> True | Some i \<Rightarrow> i < length (m_sources s)"
    by (cases "metadataSource s") (simp_all add: assms(2))
qed

lemma m_source_inv_openD:
  "m_source_inv s \<Longrightarrow> i < length (m_sources s) \<Longrightarrow> is_open (m_sources s ! i)
     \<Longrightarrow> metadataSource s = Some i"
  unfolding m_source_inv_def by (simp add: Ball_def)

lemma m_source_inv_handleD:
  "m_source_inv s \<Longrightarrow> metadataSource s = Some i \<Longrightarrow> i < length (m_sources s)"
  unfolding m_source_inv_def by simp

lemma m_source_inv_cong:
  assumes "m_sources s' = m_sources s" and "metadataSource s' = metadataSource s"
    and "m_source_inv s"
  shows "m_source_inv s'"
  using assms(3) unfolding m_source_inv_def assms(1,2) .

lemma m_source_inv_initial: "m_source_inv m_initial"
  by (rule m_source_invI) (simp_all add: m_initial_def)

lemma m_source_inv_unset:
  assumes "m_source_inv s" and "metadataSource s = None" and "i < length (m_sources s)"
  shows "\<not> is_open (m_sources s ! i)"
  using m_source_inv_openD [OF assms(1) assms(3)] assms(2) by auto

lemma m_close_prior_none:
  assumes "m_source_inv s" and "i < length (m_sources s)"
  shows "\<not> is_open (m_sources (m_close_prior s) ! i)"
proof (cases "metadataSource s")
  case None
  with assms show ?thesis
    by (simp add: m_close_prior_def m_source_inv_unset)
next
  case (Some k)
  have "\<not> is_open (es_close k (m_sources s) ! i)"
  proof (rule es_close_only [OF _ assms(2)])
    fix j assume "j < length (m_sources s)" "is_open (m_sources s ! j)"
    with assms(1) have "metadataSource s = Some j" by (rule m_source_inv_openD)
    with Some show "j = k" by simp
  qed
  with Some show ?thesis
    by (simp add: m_close_prior_def)
qed

lemma m_close_current_none:
  assumes "m_source_inv s" and "i < length (m_sources s)"
  shows "\<not> is_open (m_sources (m_close_current s) ! i)"
proof (cases "metadataSource s")
  case None
  with assms show ?thesis
    by (simp add: m_close_current_def m_source_inv_unset)
next
  case (Some k)
  have "\<not> is_open (es_close k (m_sources s) ! i)"
  proof (rule es_close_only [OF _ assms(2)])
    fix j assume "j < length (m_sources s)" "is_open (m_sources s ! j)"
    with assms(1) have "metadataSource s = Some j" by (rule m_source_inv_openD)
    with Some show "j = k" by simp
  qed
  with Some show ?thesis
    by (simp add: m_close_current_def)
qed

lemma m_source_inv_startStream:
  assumes "m_source_inv s"
  shows "m_source_inv (m_startStream p s)"
proof (rule m_source_invI)
  fix i
  assume lt: "i < length (m_sources (m_startStream p s))"
    and op: "is_open (m_sources (m_startStream p s) ! i)"
  have "\<not> i < length (m_sources s)"
    using m_close_prior_none [OF assms, of i] op by (auto simp: m_startStream_fields nth_append)
  with lt have "i = length (m_sources s)"
    by (simp add: m_startStream_fields)
  then show "metadataSource (m_startStream p s) = Some i"
    by (simp add: m_startStream_fields)
next
  fix i
  assume "metadataSource (m_startStream p s) = Some i"
  then show "i < length (m_sources (m_startStream p s))"
    by (auto simp: m_startStream_fields)
qed

lemma m_source_inv_stopStream:
  assumes "m_source_inv s"
  shows "m_source_inv (m_stopStream s)"
proof (rule m_source_invI)
  fix i
  assume "i < length (m_sources (m_stopStream s))" and "is_open (m_sources (m_stopStream s) ! i)"
  with m_close_current_none [OF assms, of i] show "metadataSource (m_stopStream s) = Some i"
    by simp
next
  fix i
  assume "metadataSource (m_stopStream s) = Some i"
  then show "i < length (m_sources (m_stopStream s))" by simp
qed

lemma m_source_inv_step:
  assumes "m_source_inv s"
  shows "m_source_inv (m_step p h s ev)"
proof (cases ev)
  case MCallStart
  with assms show ?thesis by (simp add: m_source_inv_startStream)
next
  case MCallStop
  with assms show ?thesis by (simp add: m_source_inv_stopStream)
next
  case MCallToggle
  with assms show ?thesis
    by (simp add: m_toggleStream_def m_source_inv_startStream m_source_inv_stopStream)
next
  case (MSourceMessage i d)
  have "m_source_inv (m_onmessage h d s)"
    using assms by (rule m_source_inv_cong [rotated -1]) simp_all
  with assms MSourceMessage show ?thesis by simp
next
  case (MSourceError i)
  have "m_source_inv (m_onerror s)"
    using assms by (rule m_source_inv_cong [rotated -1]) (simp_all add: m_onerror_def)
  with assms MSourceError show ?thesis by simp
qed

lemma m_source_inv_run: "m_source_inv s \<Longrightarrow> m_source_inv (m_run p h s evs)"
  unfolding m_run_def by (induction evs arbitrary: s) (simp_all add: m_source_inv_step)

lemma m_source_inv_open_count:
  assumes "m_source_inv s"
  shows "open_count (m_sources s) \<le> 1"
proof -
  have "i = the (metadataSource s)" if "i < length (m_sources s)" "is_open (m_sources s ! i)" for i
    using m_source_inv_openD [OF assms that] by simp
  then show ?thesis
    unfolding open_count_def by (rule filter_at_most_one)
qed

section \<open>Frame Stream Consumer: the staleness timer\<close>

lemma pending_count_none:
  assumes "\<And>t. t < length ts \<Longrightarrow> \<not> pending (ts ! t)"
  shows "pending_count ts = 0"
  unfolding pending_count_def using filter_none [of ts pending] assms by simp

lemma reschedule_pending_count:
  assumes "timer_inv s"
  shows "pending_count (timers (schedule_stale p (cancel_stale s))) = 1"
proof -
  have "filter pending (timers (cancel_stale s)) = []"
    by (rule filter_none) (simp add: cancel_stale_none [OF assms])
  then show ?thesis
    by (simp add: pending_count_def)
qed

lemma fire_not_pending:
  assumes "\<not> pending (timers s ! t)"
  shows "fire t s = s"
  using assms by (simp add: fire_def)

text \<open>
  C1. In every state a run of the Frame Stream Consumer reaches, the handle
  \<open>timeoutId\<close> is unset or refers to the timer scheduled last, at most one timer is
  pending, and a pending timer is the one the handle refers to. The statement
  \<^verbatim>\<open>if (timeoutId) clearTimeout(timeoutId)\<close> leaves no timer pending, so a message that
  is processed to its end leaves exactly one: the new one, to which the handle now
  refers; every earlier timer is no longer pending and its firing cannot emit anything.
  \<^verbatim>\<open>stopStream\<close> leaves the handle unset and no timer pending.
\<close>

theorem stale_timer_unique:
  assumes "s = run p h (initial el m) evs"
  shows "(case timeoutId s of None \<Rightarrow> True | Some t \<Rightarrow> Suc t = length (timers s))
    \<and> pending_count (timers s) \<le> 1
    \<and> (\<forall>t < length (timers s). pending (timers s ! t) \<longrightarrow> timeoutId s = Some t)
    \<and> pending_count (timers (cancel_stale s)) = 0
    \<and> (onmessage_try p h d s = Inr s' \<longrightarrow>
          pending_count (timers s') = 1
        \<and> timeoutId s' = Some (length (timers s))
        \<and> timers s' ! length (timers s) = \<lparr>delay = props_timeout p, pending = True\<rparr>
        \<and> (\<forall>t < length (timers s). \<not> pending (timers s' ! t) \<and> fire t s' = s'))
    \<and> timeoutId (stopStream s) = None
    \<and> pending_count (timers (stopStream s)) = 0"
proof -
  have inv: "timer_inv s"
    unfolding assms by (rule timer_inv_run) (rule timer_inv_initial)
  have latest: "case timeoutId s of None \<Rightarrow> True | Some t \<Rightarrow> Suc t = length (timers s)"
    using inv unfolding timer_inv_def by blast
  have count: "pending_count (timers s) \<le> 1"
    using inv by (rule timer_inv_pending_count)
  have only: "\<forall>t < length (timers s). pending (timers s ! t) \<longrightarrow> timeoutId s = Some t"
    using inv by (simp add: timer_inv_pendingD)
  have cancelled: "pending_count (timers (cancel_stale s)) = 0"
    by (rule pending_count_none) (simp add: cancel_stale_none [OF inv])
  have message: "pending_count (timers s') = 1
        \<and> timeoutId s' = Some (length (timers s))
        \<and> timers s' ! length (timers s) = \<lparr>delay = props_timeout p, pending = True\<rparr>
        \<and> (\<forall>t < length (timers s). \<not> pending (timers s' ! t) \<and> fire t s' = s')"
    if tr: "onmessage_try p h d s = Inr s'"
  proof (cases rule: onmessage_cases [of p h d s])
    case (thrown e)
    with tr show ?thesis by simp
  next
    case (processed data s1)
    note f = render_frame_fields [OF processed(2)]
    have inv1: "timer_inv s1"
      using inv by (rule timer_inv_cong [rotated -1]) (simp_all add: f)
    have s': "s' = schedule_stale p (cancel_stale s1)"
      using tr processed(3) by simp
    have old: "\<not> pending (timers s' ! t)" if "t < length (timers s)" for t
      unfolding s' using reschedule_old_not_pending [OF inv1, of t p] that by (simp add: f)
    have "pending_count (timers s') = 1"
      unfolding s' by (rule reschedule_pending_count [OF inv1])
    moreover have "timeoutId s' = Some (length (timers s))"
      by (simp add: s' f)
    moreover have "timers s' ! length (timers s) = \<lparr>delay = props_timeout p, pending = True\<rparr>"
      by (simp add: s' f nth_append)
    moreover have "\<forall>t < length (timers s). \<not> pending (timers s' ! t) \<and> fire t s' = s'"
      using old fire_not_pending by blast
    ultimately show ?thesis by blast
  qed
  have stopped: "pending_count (timers (stopStream s)) = 0"
  proof (rule pending_count_none)
    fix t assume "t < length (timers (stopStream s))"
    moreover have "timer_inv (close_current s)"
      using inv by (rule timer_inv_cong [rotated -1]) simp_all
    ultimately show "\<not> pending (timers (stopStream s) ! t)"
      using clear_stale_none [of "close_current s" t] by simp
  qed
  from latest count only cancelled message stopped show ?thesis
    by simp
qed

lemma sample_run:
  "run page_video_props sample_host (initial (Some blank_image) ())
     [CallStart, SourceMessage 0 frame_payload] =
   \<lparr>isVideoUnavailable = False, hasLastFrame = True, isRunning = True, timeoutId = Some 0,
    frameSource = Some 0, emitted = [StatusChanged True],
    sources = [\<lparr>es_url = ''http://192.168.66.120:8000/stream/frame'', es_closed = False\<rparr>],
    timers = [\<lparr>delay = 5000, pending = True\<rparr>],
    frameElement = Some \<lparr>src = ''data:image/jpeg;base64,QUJD''\<rparr>\<rparr>"
  by (simp add: run_def initial_def startStream_def close_prior_def open_source_def
      new_EventSource_def emit_def deliverable_def is_open_def onmessage_def onmessage_try_def
      render_frame_def cancel_stale_def schedule_stale_def setTimeout_def props_timeout_def
      page_video_props_def frameStreamUrl_def baseUrl_def sample_host_def frame_payload_def
      metadata_payload_def blank_image_def)

lemma sample_second_message:
  "onmessage_try page_video_props sample_host frame_payload
     \<lparr>isVideoUnavailable = False, hasLastFrame = True, isRunning = True, timeoutId = Some 0,
      frameSource = Some 0, emitted = [StatusChanged True],
      sources = [\<lparr>es_url = ''http://192.168.66.120:8000/stream/frame'', es_closed = False\<rparr>],
      timers = [\<lparr>delay = 5000, pending = True\<rparr>],
      frameElement = Some \<lparr>src = ''data:image/jpeg;base64,QUJD''\<rparr>\<rparr> =
   Inr \<lparr>isVideoUnavailable = False, hasLastFrame = True, isRunning = True, timeoutId = Some 1,
      frameSource = Some 0, emitted = [StatusChanged True],
      sources = [\<lparr>es_url = ''http://192.168.66.120:8000/stream/frame'', es_closed = False\<rparr>],
      timers = [\<lparr>delay = 5000, pending = False\<rparr>, \<lparr>delay = 5000, pending = True\<rparr>],
      frameElement = Some \<lparr>src = ''data:image/jpeg;base64,QUJD''\<rparr>\<rparr>"
  by (simp add: onmessage_try_def render_frame_def cancel_stale_def schedule_stale_def
      setTimeout_def clearTimeout_def props_timeout_def page_video_props_def sample_host_def
      frame_payload_def metadata_payload_def)

theorem stale_timer_unique_witness:
  "timeoutId (run page_video_props sample_host (initial (Some blank_image) ())
       [CallStart, SourceMessage 0 frame_payload]) = Some 0
   \<and> pending (timers (run page_video_props sample_host (initial (Some blank_image) ())
       [CallStart, SourceMessage 0 frame_payload]) ! 0)
   \<and> pending_count (timers (run page_video_props sample_host (initial (Some blank_image) ())
       [CallStart, SourceMessage 0 frame_payload])) \<le> 1
   \<and> pending_count (timers (projr (onmessage_try page_video_props sample_host frame_payload
       (run page_video_props sample_host (initial (Some blank_image) ())
         [CallStart, SourceMessage 0 frame_payload])))) = 1
   \<and> timeoutId (projr (onmessage_try page_video_props sample_host frame_payload
       (run page_video_props sample_host (initial (Some blank_image) ())
         [CallStart, SourceMessage 0 frame_payload]))) = Some 1
   \<and> \<not> pending (timers (projr (onmessage_try page_video_props sample_host frame_payload
       (run page_video_props sample_host (initial (Some blank_image) ())
         [CallStart, SourceMessage 0 frame_payload]))) ! 0)"
  using stale_timer_unique [OF refl, of page_video_props sample_host "Some blank_image" "()"
      "[CallStart, SourceMessage 0 frame_payload]" frame_payload
      "projr (onmessage_try page_video_props sample_host frame_payload
         (run page_video_props sample_host (initial (Some blank_image) ())
           [CallStart, SourceMessage 0 frame_payload]))"]
  unfolding sample_run sample_second_message
  by simp

section \<open>Frame Stream Consumer: the message handler\<close>

text \<open>A payload that parses to an object whose \<^verbatim>\<open>frame\<close> field is a string.\<close>

lemma frame_message_processed:
  assumes "JSON_parse h d = Some (JObject kvs)" and "map_of kvs ''frame'' = Some (JString b)"
  shows "onmessage p h d s =
     schedule_stale p (cancel_stale
       (case frameElement s of
          None \<Rightarrow> s
        | Some el \<Rightarrow>
            s\<lparr>frameElement :=
                 Some (el\<lparr>src := ''data:image/jpeg;base64,'' @ ToString h (Defined (JString b))\<rparr>),
              hasLastFrame := True, isVideoUnavailable := False\<rparr>))"
  using assms
  by (cases "frameElement s") (simp_all add: onmessage_def onmessage_try_def render_frame_def)

lemma reschedule_timers:
  "timers (schedule_stale p (cancel_stale s)) =
     timers (cancel_stale s) @ [\<lparr>delay = props_timeout p, pending = True\<rparr>]"
  "timeoutId (schedule_stale p (cancel_stale s)) = Some (length (timers s))"
  by simp_all

lemma cancel_stale_handle:
  assumes "timeoutId s = Some t" and "t < length (timers s)"
  shows "\<not> pending (timers (cancel_stale s) ! t)"
  using assms by (simp add: cancel_stale_def clearTimeout_nth)

lemma sample_mounted_no_element:
  "startStream page_video_props (initial None ()) =
   \<lparr>isVideoUnavailable = False, hasLastFrame = False, isRunning = True, timeoutId = None,
    frameSource = Some 0, emitted = [StatusChanged True],
    sources = [\<lparr>es_url = ''http://192.168.66.120:8000/stream/frame'', es_closed = False\<rparr>],
    timers = [], frameElement = None\<rparr>"
  by (simp add: initial_def startStream_def close_prior_def open_source_def
      new_EventSource_def emit_def page_video_props_def frameStreamUrl_def baseUrl_def)

lemma sample_parse_frame:
  "JSON_parse sample_host frame_payload = Some (JObject [(''frame'', JString ''QUJD'')])"
  by (simp add: sample_host_def frame_payload_def)

lemma sample_parse_truncated: "JSON_parse sample_host truncated_payload = None"
  by (simp add: sample_host_def frame_payload_def metadata_payload_def truncated_payload_def)

text \<open>
  C2, as stated, fails: a well-formed frame message that arrives while the document has
  no element with id \<^verbatim>\<open>frame\<close> leaves "has displayed at least one frame" false.
\<close>

theorem frame_flags_counterexample:
  "JSON_parse sample_host frame_payload = Some (JObject [(''frame'', JString ''QUJD'')])
   \<and> \<not> hasLastFrame (onmessage page_video_props sample_host frame_payload
          (startStream page_video_props (initial None ())))"
  unfolding sample_mounted_no_element
  by (simp add: frame_message_processed [OF sample_parse_frame] sample_parse_frame)

text \<open>
  C2, amended. For every well-formed frame message (a JSON object whose \<^verbatim>\<open>frame\<close> field
  is a string), after the handler has run: if the document has an element with id
  \<^verbatim>\<open>frame\<close>, "has displayed at least one frame" is true and "video unavailable" is
  false; and whether or not the element exists, the timer the handle referred to is no
  longer pending, a new pending timer with delay \<^verbatim>\<open>props.timeout\<close> has been appended
  to the timer table, and the handle refers to it.
\<close>

theorem frame_message_flags_and_timer:
  assumes "JSON_parse h d = Some (JObject kvs)" and "map_of kvs ''frame'' = Some (JString b)"
    and "s' = onmessage p h d s"
  shows "(frameElement s \<noteq> None \<longrightarrow> hasLastFrame s' \<and> \<not> isVideoUnavailable s')
    \<and> timers s' = timers (cancel_stale s) @ [\<lparr>delay = props_timeout p, pending = True\<rparr>]
    \<and> timeoutId s' = Some (length (timers s))
    \<and> (\<forall>t. timeoutId s = Some t \<and> t < length (timers s) \<longrightarrow> \<not> pending (timers s' ! t))"
proof (cases "frameElement s")
  case None
  then have s': "s' = schedule_stale p (cancel_stale s)"
    by (simp add: assms(3) frame_message_processed [OF assms(1,2)])
  show ?thesis
    using None cancel_stale_handle [of s] by (auto simp: s' nth_append)
next
  case (Some el)
  define s1 where "s1 = s\<lparr>frameElement :=
      Some (el\<lparr>src := ''data:image/jpeg;base64,'' @ ToString h (Defined (JString b))\<rparr>),
    hasLastFrame := True, isVideoUnavailable := False\<rparr>"
  have s': "s' = schedule_stale p (cancel_stale s1)"
    by (simp add: assms(3) frame_message_processed [OF assms(1,2)] Some s1_def)
  have same: "timers s1 = timers s" "timeoutId s1 = timeoutId s"
    by (simp_all add: s1_def)
  have "cancel_stale s1 = (cancel_stale s)\<lparr>frameElement :=
      Some (el\<lparr>src := ''data:image/jpeg;base64,'' @ ToString h (Defined (JString b))\<rparr>),
    hasLastFrame := True, isVideoUnavailable := False\<rparr>"
    by (cases "timeoutId s") (simp_all add: cancel_stale_def s1_def)
  then have t: "timers (cancel_stale s1) = timers (cancel_stale s)"
    by simp
  have flags: "hasLastFrame s' \<and> \<not> isVideoUnavailable s'"
    by (simp add: s' s1_def)
  have "\<not> pending (timers s' ! t)" if "timeoutId s = Some t" "t < length (timers s)" for t
    using cancel_stale_handle [OF that] that by (simp add: s' t same nth_append)
  with flags show ?thesis
    by (simp add: s' t same)
qed

lemma sample_first_message:
  "onmessage page_video_props sample_host frame_payload
     (startStream page_video_props (initial (Some blank_image) ())) =
   \<lparr>isVideoUnavailable = False, hasLastFrame = True, isRunning = True, timeoutId = Some 0,
    frameSource = Some 0, emitted = [StatusChanged True],
    sources = [\<lparr>es_url = ''http://192.168.66.120:8000/stream/frame'', es_closed = False\<rparr>],
    timers = [\<lparr>delay = 5000, pending = True\<rparr>],
    frameElement = Some \<lparr>src = ''data:image/jpeg;base64,QUJD''\<rparr>\<rparr>"
  using sample_run by (simp add: run_def deliverable_def is_open_def startStream_fields
      close_prior_def initial_def)

theorem frame_message_flags_and_timer_witness:
  "JSON_parse sample_host frame_payload = Some (JObject [(''frame'', JString ''QUJD'')])
   \<and> map_of [(''frame'', JString ''QUJD'' :: int json)] ''frame'' = Some (JString ''QUJD'')
   \<and> frameElement (onmessage page_video_props sample_host frame_payload
          (startStream page_video_props (initial (Some blank_image) ()))) \<noteq> None
   \<and> timeoutId (onmessage page_video_props sample_host frame_payload
          (startStream page_video_props (initial (Some blank_image) ()))) = Some 0
   \<and> hasLastFrame (onmessage page_video_props sample_host frame_payload
        (onmessage page_video_props sample_host frame_payload
          (startStream page_video_props (initial (Some blank_image) ()))))
   \<and> \<not> isVideoUnavailable (onmessage page_video_props sample_host frame_payload
        (onmessage page_video_props sample_host frame_payload
          (startStream page_video_props (initial (Some blank_image) ()))))
   \<and> \<not> pending (timers (onmessage page_video_props sample_host frame_payload
        (onmessage page_video_props sample_host frame_payload
          (startStream page_video_props (initial (Some blank_image) ())))) ! 0)
   \<and> timeoutId (onmessage page_video_props sample_host frame_payload
        (onmessage page_video_props sample_host frame_payload
          (startStream page_video_props (initial (Some blank_image) ())))) = Some 1"
  using frame_message_flags_and_timer [OF sample_parse_frame _ refl,
      where b = "''QUJD''" and p = page_video_props
        and s = "onmessage page_video_props sample_host frame_payload
          (startStream page_video_props (initial (Some blank_image) ()))"]
  unfolding sample_first_message
  by (simp add: sample_parse_frame cancel_stale_def clearTimeout_def)

text \<open>
  C3. For every payload that \<^verbatim>\<open>JSON.parse\<close> rejects, the handler sets "video
  unavailable", emits the error notification \<^verbatim>\<open>Failed to parse frame data\<close> and nothing
  else, and leaves the running flag, the connection handle, the table of event sources
  (so the connection is not closed), the timer and "has displayed at least one frame"
  as they were.
\<close>

theorem malformed_frame_payload:
  assumes "JSON_parse h d = None" and "s' = onmessage p h d s"
  shows "isVideoUnavailable s'
    \<and> emitted s' = emitted s @ [Error ''Failed to parse frame data'']
    \<and> isRunning s' = isRunning s
    \<and> frameSource s' = frameSource s
    \<and> sources s' = sources s
    \<and> timers s' = timers s
    \<and> timeoutId s' = timeoutId s
    \<and> hasLastFrame s' = hasLastFrame s"
  using assms by (simp add: onmessage_def onmessage_try_def)

theorem malformed_frame_payload_witness:
  "JSON_parse sample_host truncated_payload = None
   \<and> isVideoUnavailable (onmessage page_video_props sample_host truncated_payload
        (onmessage page_video_props sample_host frame_payload
          (startStream page_video_props (initial (Some blank_image) ()))))
   \<and> emitted (onmessage page_video_props sample_host truncated_payload
        (onmessage page_video_props sample_host frame_payload
          (startStream page_video_props (initial (Some blank_image) ()))))
      = [StatusChanged True, Error ''Failed to parse frame data'']
   \<and> isRunning (onmessage page_video_props sample_host truncated_payload
        (onmessage page_video_props sample_host frame_payload
          (startStream page_video_props (initial (Some blank_image) ()))))
   \<and> open_count (sources (onmessage page_video_props sample_host truncated_payload
        (onmessage page_video_props sample_host frame_payload
          (startStream page_video_props (initial (Some blank_image) ()))))) = 1"
  using malformed_frame_payload [OF sample_parse_truncated refl,
      where p = page_video_props
        and s = "onmessage page_video_props sample_host frame_payload
          (startStream page_video_props (initial (Some blank_image) ()))"]
  unfolding sample_first_message
  by (simp add: sample_parse_truncated open_count_def is_open_def)

text \<open>
  C9. A well-formed frame message sets "has displayed at least one frame" and clears
  "video unavailable" when the document has an element with id \<^verbatim>\<open>frame\<close>, whose source
  becomes the data URL of the frame; when there is no such element, both flags keep
  their values. In both cases the timer the handle referred to is cancelled and a new
  one with delay \<^verbatim>\<open>props.timeout\<close> is scheduled, to which the handle then refers.
\<close>

theorem frame_flags_need_element:
  assumes "JSON_parse h d = Some (JObject kvs)" and "map_of kvs ''frame'' = Some (JString b)"
    and "s' = onmessage p h d s"
  shows "(case frameElement s of
            None \<Rightarrow>
              hasLastFrame s' = hasLastFrame s \<and> isVideoUnavailable s' = isVideoUnavailable s
              \<and> frameElement s' = None
          | Some el \<Rightarrow>
              hasLastFrame s' \<and> \<not> isVideoUnavailable s'
              \<and> frameElement s' =
                  Some (el\<lparr>src := ''data:image/jpeg;base64,'' @ ToString h (Defined (JString b))\<rparr>))
    \<and> timers s' = clearTimeout_handle (timeoutId s) (timers s)
                    @ [\<lparr>delay = props_timeout p, pending = True\<rparr>]
    \<and> timeoutId s' = Some (length (timers s))"
  using assms(3) unfolding frame_message_processed [OF assms(1,2)]
  by (cases "frameElement s"; cases "timeoutId s")
    (simp_all add: cancel_stale_def clearTimeout_handle_def)

theorem frame_flags_need_element_witness:
  "JSON_parse sample_host frame_payload = Some (JObject [(''frame'', JString ''QUJD'')])
   \<and> map_of [(''frame'', JString ''QUJD'' :: int json)] ''frame'' = Some (JString ''QUJD'')
   \<and> frameElement (startStream page_video_props (initial None ())) = None
   \<and> \<not> hasLastFrame (onmessage page_video_props sample_host frame_payload
          (startStream page_video_props (initial None ())))
   \<and> \<not> isVideoUnavailable (onmessage page_video_props sample_host frame_payload
          (startStream page_video_props (initial None ())))
   \<and> timers (onmessage page_video_props sample_host frame_payload
          (startStream page_video_props (initial None ()))) = [\<lparr>delay = 5000, pending = True\<rparr>]
   \<and> timeoutId (onmessage page_video_props sample_host frame_payload
          (startStream page_video_props (initial None ()))) = Some 0"
  using frame_flags_need_element [OF sample_parse_frame _ refl,
      where b = "''QUJD''" and p = page_video_props
        and s = "startStream page_video_props (initial None ())"]
  unfolding sample_mounted_no_element
  by (simp add: sample_parse_frame clearTimeout_handle_def props_timeout_def page_video_props_def)

section \<open>At most one open connection per consumer\<close>

lemma open_count_none:
  assumes "\<And>i. i < length es \<Longrightarrow> \<not> is_open (es ! i)"
  shows "open_count es = 0"
  unfolding open_count_def using filter_none [of es is_open] assms by simp

lemma open_count_fresh:
  assumes "\<And>i. i < length es \<Longrightarrow> \<not> is_open (es ! i)"
  shows "open_count (es @ [\<lparr>es_url = u, es_closed = False\<rparr>]) = 1"
  unfolding open_count_def using filter_none [of es is_open] assms by (simp add: is_open_def)

lemma sample_restart:
  "run page_video_props sample_host (initial (Some blank_image) ()) [CallStart] =
   \<lparr>isVideoUnavailable = False, hasLastFrame = False, isRunning = True, timeoutId = None,
    frameSource = Some 0, emitted = [StatusChanged True],
    sources = [\<lparr>es_url = ''http://192.168.66.120:8000/stream/frame'', es_closed = False\<rparr>],
    timers = [], frameElement = Some \<lparr>src = []\<rparr>\<rparr>"
  by (simp add: run_def initial_def startStream_def close_prior_def open_source_def
      new_EventSource_def emit_def page_video_props_def frameStreamUrl_def baseUrl_def
      blank_image_def)

lemma sample_m_restart:
  "m_run page_metadata_props sample_host m_initial [MCallStart] =
   \<lparr>metadata = JNull, m_isRunning = True, metadataSource = Some 0,
    m_emitted = [MStatusChanged True],
    m_sources = [\<lparr>es_url = ''http://192.168.66.120:8000/stream/metadata'', es_closed = False\<rparr>]\<rparr>"
  by (simp add: m_run_def m_initial_def m_startStream_def m_close_prior_def m_open_source_def
      new_EventSource_def m_emit_def page_metadata_props_def metadataStreamUrl_def baseUrl_def)

text \<open>
  C4. In every state a run of either consumer reaches, at most one event source is
  open. When \<^verbatim>\<open>startStream\<close> is called in such a state, the statement that closes the
  prior connection leaves no event source open; the call ends with exactly one open,
  the new one, to which the handle refers, and a connection the handle referred to
  before is closed.
\<close>

theorem single_open_connection:
  assumes "s = run p h (initial el m) evs" and "ms = m_run q h m_initial mevs"
  shows "open_count (sources s) \<le> 1
    \<and> open_count (sources (close_prior s)) = 0
    \<and> open_count (sources (startStream p s)) = 1
    \<and> frameSource (startStream p s) = Some (length (sources s))
    \<and> is_open (sources (startStream p s) ! length (sources s))
    \<and> (\<forall>i. frameSource s = Some i \<longrightarrow>
          i < length (sources s) \<and> \<not> is_open (sources (startStream p s) ! i))
    \<and> open_count (m_sources ms) \<le> 1
    \<and> open_count (m_sources (m_close_prior ms)) = 0
    \<and> open_count (m_sources (m_startStream q ms)) = 1
    \<and> metadataSource (m_startStream q ms) = Some (length (m_sources ms))
    \<and> is_open (m_sources (m_startStream q ms) ! length (m_sources ms))
    \<and> (\<forall>i. metadataSource ms = Some i \<longrightarrow>
          i < length (m_sources ms) \<and> \<not> is_open (m_sources (m_startStream q ms) ! i))"
proof -
  have inv: "source_inv s"
    unfolding assms by (rule source_inv_run) (rule source_inv_initial)
  have minv: "m_source_inv ms"
    unfolding assms by (rule m_source_inv_run) (rule m_source_inv_initial)
  have closed: "\<not> is_open (sources (close_prior s) ! i)" if "i < length (sources s)" for i
    using inv that by (rule close_prior_none)
  have mclosed: "\<not> is_open (m_sources (m_close_prior ms) ! i)" if "i < length (m_sources ms)" for i
    using minv that by (rule m_close_prior_none)
  have v1: "open_count (sources s) \<le> 1"
    using inv by (rule source_inv_open_count)
  have v2: "open_count (sources (close_prior s)) = 0"
    by (rule open_count_none) (simp add: closed)
  have v3: "open_count (sources (startStream p s)) = 1"
    unfolding startStream_fields by (rule open_count_fresh) (simp add: closed)
  have v4: "frameSource (startStream p s) = Some (length (sources s))"
    by (simp add: startStream_fields)
  have v5: "is_open (sources (startStream p s) ! length (sources s))"
    by (simp add: startStream_fields nth_append is_open_def)
  have v6: "i < length (sources s) \<and> \<not> is_open (sources (startStream p s) ! i)"
    if "frameSource s = Some i" for i
  proof -
    have "i < length (sources s)"
      using inv that by (rule source_inv_handleD)
    with closed [of i] show ?thesis
      by (simp add: startStream_fields nth_append)
  qed
  have m1: "open_count (m_sources ms) \<le> 1"
    using minv by (rule m_source_inv_open_count)
  have m2: "open_count (m_sources (m_close_prior ms)) = 0"
    by (rule open_count_none) (simp add: mclosed)
  have m3: "open_count (m_sources (m_startStream q ms)) = 1"
    unfolding m_startStream_fields by (rule open_count_fresh) (simp add: mclosed)
  have m4: "metadataSource (m_startStream q ms) = Some (length (m_sources ms))"
    by (simp add: m_startStream_fields)
  have m5: "is_open (m_sources (m_startStream q ms) ! length (m_sources ms))"
    by (simp add: m_startStream_fields nth_append is_open_def)
  have m6: "i < length (m_sources ms) \<and> \<not> is_open (m_sources (m_startStream q ms) ! i)"
    if "metadataSource ms = Some i" for i
  proof -
    have "i < length (m_sources ms)"
      using minv that by (rule m_source_inv_handleD)
    with mclosed [of i] show ?thesis
      by (simp add: m_startStream_fields nth_append)
  qed
  from v1 v2 v3 v4 v5 v6 m1 m2 m3 m4 m5 m6 show ?thesis
    by blast
qed

theorem single_open_connection_witness:
  "frameSource (run page_video_props sample_host (initial (Some blank_image) ()) [CallStart])
     = Some 0
   \<and> is_open (sources (run page_video_props sample_host (initial (Some blank_image) ())
       [CallStart]) ! 0)
   \<and> \<not> is_open (sources (startStream page_video_props
       (run page_video_props sample_host (initial (Some blank_image) ()) [CallStart])) ! 0)
   \<and> is_open (sources (startStream page_video_props
       (run page_video_props sample_host (initial (Some blank_image) ()) [CallStart])) ! 1)
   \<and> open_count (sources (startStream page_video_props
       (run page_video_props sample_host (initial (Some blank_image) ()) [CallStart]))) = 1
   \<and> metadataSource (m_run page_metadata_props sample_host m_initial [MCallStart]) = Some 0
   \<and> is_open (m_sources (m_run page_metadata_props sample_host m_initial [MCallStart]) ! 0)
   \<and> \<not> is_open (m_sources (m_startStream page_metadata_props
       (m_run page_metadata_props sample_host m_initial [MCallStart])) ! 0)
   \<and> open_count (m_sources (m_startStream page_metadata_props
       (m_run page_metadata_props sample_host m_initial [MCallStart]))) = 1"
  using single_open_connection [OF refl refl,
      where p = page_video_props and h = sample_host and el = "Some blank_image" and m = "()"
        and evs = "[CallStart]" and q = page_metadata_props and mevs = "[MCallStart]"]
  unfolding sample_restart sample_m_restart
  by (simp add: is_open_def)

section \<open>Mode/Reset Controller\<close>

lemma emit_ctl_fields [simp]:
  "aggressiveMode (emit n s) = aggressiveMode s"
  "isResetting (emit n s) = isResetting s"
  "isTogglingMode (emit n s) = isTogglingMode s"
  by (simp_all add: emit_def)

lemma next_mode_cycle:
  "next_mode Idle = Chasing" "next_mode Chasing = Explosion" "next_mode Explosion = Idle"
  by (simp_all add: next_mode_def modes_def)

lemma string_of_500: "string_of_nat 500 = ''500''"
  by code_simp

text \<open>
  C5. The next mode is computed as idle to chasing, chasing to explosion, explosion to
  idle. A call that is not dropped sends that mode, sets only the in-flight flag and
  leaves the held mode as it is; the continuation assigns the mode when the response
  is a success. When the request fails (the promise is rejected, or the response is
  not a success, which throws an error with the status code) the held mode is the one
  at resumption and the error notification \<^verbatim>\<open>Toggle aggressive mode failed: ...\<close> is
  emitted.
\<close>

theorem toggle_cycles_and_keeps_mode_on_failure:
  "next_mode Idle = Chasing \<and> next_mode Chasing = Explosion \<and> next_mode Explosion = Idle
   \<and> (\<not> isTogglingMode s \<longrightarrow>
        toggleAggressiveMode s =
          (s\<lparr>isTogglingMode := True\<rparr>,
           Some (config_request (next_mode (aggressiveMode s)), next_mode (aggressiveMode s))))
   \<and> (ok resp \<longrightarrow>
        aggressiveMode (toggleAggressiveMode_resumed m (Resolved resp) s) = m
        \<and> emitted (toggleAggressiveMode_resumed m (Resolved resp) s)
            = emitted s @ [StatusChanged (isRunning s)])
   \<and> (\<not> ok resp \<longrightarrow>
        config_try m (Resolved resp) s
          = Inl (ErrorInstance (''Config update failed: '' @ string_of_nat (status resp))))
   \<and> config_try m (Rejected e) s = Inl e
   \<and> (config_try m r s = Inl e' \<longrightarrow>
        aggressiveMode (toggleAggressiveMode_resumed m r s) = aggressiveMode s
        \<and> emitted (toggleAggressiveMode_resumed m r s)
            = emitted s @ [Error (''Toggle aggressive mode failed: '' @ error_message e')])
   \<and> \<not> isTogglingMode (toggleAggressiveMode_resumed m r s)
   \<and> (\<not> isTogglingMode s \<and> ok resp \<longrightarrow>
        aggressiveMode (toggleAggressiveMode_alone (Resolved resp) s) = next_mode (aggressiveMode s))
   \<and> (\<not> isTogglingMode s \<and> \<not> ok resp \<longrightarrow>
        aggressiveMode (toggleAggressiveMode_alone (Resolved resp) s) = aggressiveMode s
        \<and> emitted (toggleAggressiveMode_alone (Resolved resp) s)
            = emitted s @ [Error (''Toggle aggressive mode failed: Config update failed: ''
                                   @ string_of_nat (status resp))])
   \<and> (\<not> isTogglingMode s \<longrightarrow>
        aggressiveMode (toggleAggressiveMode_alone (Rejected e) s) = aggressiveMode s
        \<and> emitted (toggleAggressiveMode_alone (Rejected e) s)
            = emitted s @ [Error (''Toggle aggressive mode failed: '' @ error_message e)])"
proof -
  have call: "toggleAggressiveMode s =
      (s\<lparr>isTogglingMode := True\<rparr>,
       Some (config_request (next_mode (aggressiveMode s)), next_mode (aggressiveMode s)))"
    if "\<not> isTogglingMode s"
    using that by (simp add: toggleAggressiveMode_def Let_def)
  have success: "aggressiveMode (toggleAggressiveMode_resumed m (Resolved resp) s) = m
      \<and> emitted (toggleAggressiveMode_resumed m (Resolved resp) s)
          = emitted s @ [StatusChanged (isRunning s)]"
    if "ok resp"
    using that by (simp add: toggleAggressiveMode_resumed_def config_try_def Let_def)
  have status: "config_try m (Resolved resp) s
      = Inl (ErrorInstance (''Config update failed: '' @ string_of_nat (status resp)))"
    if "\<not> ok resp"
    using that by (simp add: config_try_def)
  have rejected: "config_try m (Rejected e) s = Inl e"
    by (simp add: config_try_def)
  have failure: "aggressiveMode (toggleAggressiveMode_resumed m r s) = aggressiveMode s
      \<and> emitted (toggleAggressiveMode_resumed m r s)
          = emitted s @ [Error (''Toggle aggressive mode failed: '' @ error_message e')]"
    if "config_try m r s = Inl e'"
    using that by (simp add: toggleAggressiveMode_resumed_def Let_def)
  have flag: "\<not> isTogglingMode (toggleAggressiveMode_resumed m r s)"
    by (simp add: toggleAggressiveMode_resumed_def Let_def)
  have alone_ok: "aggressiveMode (toggleAggressiveMode_alone (Resolved resp) s)
      = next_mode (aggressiveMode s)"
    if "\<not> isTogglingMode s" "ok resp"
    using that
    by (simp add: toggleAggressiveMode_alone_def toggleAggressiveMode_def
        toggleAggressiveMode_resumed_def config_try_def Let_def)
  have alone_status: "aggressiveMode (toggleAggressiveMode_alone (Resolved resp) s) = aggressiveMode s
      \<and> emitted (toggleAggressiveMode_alone (Resolved resp) s)
          = emitted s @ [Error (''Toggle aggressive mode failed: Config update failed: ''
                                 @ string_of_nat (status resp))]"
    if "\<not> isTogglingMode s" "\<not> ok resp"
    using that
    by (simp add: toggleAggressiveMode_alone_def toggleAggressiveMode_def
        toggleAggressiveMode_resumed_def config_try_def error_message_def Let_def)
  have alone_rejected: "aggressiveMode (toggleAggressiveMode_alone (Rejected e) s) = aggressiveMode s
      \<and> emitted (toggleAggressiveMode_alone (Rejected e) s)
          = emitted s @ [Error (''Toggle aggressive mode failed: '' @ error_message e)]"
    if "\<not> isTogglingMode s"
    using that
    by (simp add: toggleAggressiveMode_alone_def toggleAggressiveMode_def
        toggleAggressiveMode_resumed_def config_try_def Let_def)
  from next_mode_cycle call success status rejected failure flag
    alone_ok alone_status alone_rejected
  show ?thesis
    by blast
qed

theorem toggle_cycles_and_keeps_mode_on_failure_witness:
  "\<not> isTogglingMode (initial_ctl (Some blank_image))
   \<and> snd (toggleAggressiveMode (initial_ctl (Some blank_image)))
       = Some (config_request Chasing, Chasing)
   \<and> aggressiveMode (fst (toggleAggressiveMode (initial_ctl (Some blank_image)))) = Idle
   \<and> ok \<lparr>ok = True, status = 200\<rparr>
   \<and> aggressiveMode (toggleAggressiveMode_resumed Chasing (Resolved \<lparr>ok = True, status = 200\<rparr>)
        (fst (toggleAggressiveMode (initial_ctl (Some blank_image))))) = Chasing
   \<and> \<not> ok \<lparr>ok = False, status = 500\<rparr>
   \<and> aggressiveMode (toggleAggressiveMode_resumed Chasing (Resolved \<lparr>ok = False, status = 500\<rparr>)
        (fst (toggleAggressiveMode (initial_ctl (Some blank_image))))) = Idle
   \<and> emitted (toggleAggressiveMode_resumed Chasing (Resolved \<lparr>ok = False, status = 500\<rparr>)
        (fst (toggleAggressiveMode (initial_ctl (Some blank_image)))))
       = [Error ''Toggle aggressive mode failed: Config update failed: 500'']
   \<and> aggressiveMode (toggleAggressiveMode_alone (Resolved \<lparr>ok = True, status = 200\<rparr>)
        (initial_ctl (Some blank_image))) = Chasing
   \<and> aggressiveMode (toggleAggressiveMode_alone (Resolved \<lparr>ok = False, status = 500\<rparr>)
        (initial_ctl (Some blank_image))) = Idle"
  using toggle_cycles_and_keeps_mode_on_failure
      [where s = "initial_ctl (Some blank_image)" and resp = "\<lparr>ok = True, status = 200\<rparr>"]
    toggle_cycles_and_keeps_mode_on_failure
      [where s = "initial_ctl (Some blank_image)" and resp = "\<lparr>ok = False, status = 500\<rparr>"]
    toggle_cycles_and_keeps_mode_on_failure
      [where s = "(initial_ctl (Some blank_image))\<lparr>isTogglingMode := True\<rparr>"
         and resp = "\<lparr>ok = True, status = 200\<rparr>" and m = Chasing]
    toggle_cycles_and_keeps_mode_on_failure
      [where s = "(initial_ctl (Some blank_image))\<lparr>isTogglingMode := True\<rparr>"
         and resp = "\<lparr>ok = False, status = 500\<rparr>" and m = Chasing
         and r = "Resolved \<lparr>ok = False, status = 500\<rparr>"
         and e' = "ErrorInstance (''Config update failed: '' @ string_of_nat 500)"]
  by (simp add: initial_ctl_def initial_def error_message_def string_of_500)

text \<open>
  C6. A response that is not a success makes the \<^verbatim>\<open>try\<close> block throw an error whose
  message carries the status code; every failure, thrown there or delivered by a
  rejected request, emits the error notification \<^verbatim>\<open>Reset state failed: ...\<close> with the
  message of the error (\<^verbatim>\<open>Unknown error\<close> when the thrown value is not an error); and
  whatever the outcome of the request, the in-flight flag is false when the function
  has finished. A call made while the flag is set sends no request and returns at once.
\<close>

theorem resetState_reports_failure_and_clears_flag:
  "\<not> isResetting (resetState_resumed r s)
   \<and> (\<not> isResetting s \<longrightarrow> resetState s = (s\<lparr>isResetting := True\<rparr>, Some resetState_request))
   \<and> (isResetting s \<longrightarrow> resetState s = (s, None))
   \<and> (\<not> ok resp \<longrightarrow>
        resetState_try (Resolved resp) s
          = Inl (ErrorInstance (''Reset failed: '' @ string_of_nat (status resp)))
        \<and> emitted (resetState_resumed (Resolved resp) s)
            = emitted s @ [Error (''Reset state failed: Reset failed: '' @ string_of_nat (status resp))])
   \<and> resetState_try (Rejected e) s = Inl e
   \<and> (resetState_try r s = Inl e' \<longrightarrow>
        emitted (resetState_resumed r s)
          = emitted s @ [Error (''Reset state failed: '' @ error_message e')])
   \<and> error_message (ErrorInstance msg) = msg
   \<and> error_message OtherThrown = ''Unknown error''
   \<and> (ok resp \<longrightarrow>
        emitted (resetState_resumed (Resolved resp) s) = emitted s @ [StatusChanged (isRunning s)])"
proof -
  have flag: "\<not> isResetting (resetState_resumed r s)"
    by (simp add: resetState_resumed_def Let_def)
  have call: "resetState s = (s\<lparr>isResetting := True\<rparr>, Some resetState_request)"
    if "\<not> isResetting s"
    using that by (simp add: resetState_def)
  have dropped: "resetState s = (s, None)" if "isResetting s"
    using that by (simp add: resetState_def)
  have thrown: "resetState_try (Resolved resp) s
      = Inl (ErrorInstance (''Reset failed: '' @ string_of_nat (status resp)))"
    if "\<not> ok resp"
    using that by (simp add: resetState_try_def)
  have rejected: "resetState_try (Rejected e) s = Inl e"
    by (simp add: resetState_try_def)
  have caught: "emitted (resetState_resumed x s)
      = emitted s @ [Error (''Reset state failed: '' @ error_message y)]"
    if "resetState_try x s = Inl y" for x y
    using that by (simp add: resetState_resumed_def Let_def)
  have status: "emitted (resetState_resumed (Resolved resp) s)
      = emitted s @ [Error (''Reset state failed: Reset failed: '' @ string_of_nat (status resp))]"
    if "\<not> ok resp"
    using caught [OF thrown [OF that]] by (simp add: error_message_def)
  have message: "error_message (ErrorInstance msg) = msg"
    "error_message OtherThrown = ''Unknown error''"
    by (simp_all add: error_message_def)
  have success: "emitted (resetState_resumed (Resolved resp) s)
      = emitted s @ [StatusChanged (isRunning s)]"
    if "ok resp"
    using that by (simp add: resetState_resumed_def resetState_try_def Let_def)
  from flag call dropped thrown rejected caught status message success show ?thesis
    by blast
qed

theorem resetState_reports_failure_and_clears_flag_witness:
  "\<not> isResetting (initial_ctl (Some blank_image))
   \<and> isResetting (fst (resetState (initial_ctl (Some blank_image))))
   \<and> snd (resetState (initial_ctl (Some blank_image))) = Some resetState_request
   \<and> snd (resetState (fst (resetState (initial_ctl (Some blank_image))))) = None
   \<and> \<not> ok \<lparr>ok = False, status = 500\<rparr>
   \<and> emitted (resetState_resumed (Resolved \<lparr>ok = False, status = 500\<rparr>)
        (fst (resetState (initial_ctl (Some blank_image)))))
       = [Error ''Reset state failed: Reset failed: 500'']
   \<and> \<not> isResetting (resetState_resumed (Resolved \<lparr>ok = False, status = 500\<rparr>)
        (fst (resetState (initial_ctl (Some blank_image)))))
   \<and> ok \<lparr>ok = True, status = 200\<rparr>
   \<and> \<not> isResetting (resetState_resumed (Resolved \<lparr>ok = True, status = 200\<rparr>)
        (fst (resetState (initial_ctl (Some blank_image)))))"
  using resetState_reports_failure_and_clears_flag [where s = "initial_ctl (Some blank_image)"]
    resetState_reports_failure_and_clears_flag
      [where s = "(initial_ctl (Some blank_image))\<lparr>isResetting := True\<rparr>"
         and resp = "\<lparr>ok = False, status = 500\<rparr>"
         and r = "Resolved \<lparr>ok = False, status = 500\<rparr>"]
    resetState_reports_failure_and_clears_flag
      [where s = "(initial_ctl (Some blank_image))\<lparr>isResetting := True\<rparr>"
         and resp = "\<lparr>ok = True, status = 200\<rparr>"
         and r = "Resolved \<lparr>ok = True, status = 200\<rparr>"]
  by (simp add: initial_ctl_def initial_def string_of_500)

text \<open>
  C7. \<^verbatim>\<open>setAggressiveMode(m)\<close> called while a mode change is in flight, or with the mode
  that is currently held, returns at once: no request is sent and the state, with the
  notifications emitted so far, is the one it was called in.
\<close>

theorem setAggressiveMode_same_or_in_flight:
  assumes "isTogglingMode s \<or> aggressiveMode s = m"
  shows "setAggressiveMode m s = (s, None)"
  using assms by (simp add: setAggressiveMode_def)

theorem setAggressiveMode_same_or_in_flight_witness:
  "aggressiveMode (initial_ctl (Some blank_image)) = Idle
   \<and> setAggressiveMode Idle (initial_ctl (Some blank_image))
       = (initial_ctl (Some blank_image), None)
   \<and> isTogglingMode (fst (setAggressiveMode Chasing (initial_ctl (Some blank_image))))
   \<and> snd (setAggressiveMode Chasing (initial_ctl (Some blank_image)))
       = Some (config_request Chasing, Chasing)
   \<and> setAggressiveMode Explosion (fst (setAggressiveMode Chasing (initial_ctl (Some blank_image))))
       = (fst (setAggressiveMode Chasing (initial_ctl (Some blank_image))), None)"
  using setAggressiveMode_same_or_in_flight
      [where s = "initial_ctl (Some blank_image)" and m = Idle]
    setAggressiveMode_same_or_in_flight
      [where s = "fst (setAggressiveMode Chasing (initial_ctl (Some blank_image)))"
         and m = Explosion]
  by (simp add: initial_ctl_def initial_def setAggressiveMode_def)

section \<open>Metadata Stream Consumer: the message handler\<close>

lemma sample_parse_metadata:
  "JSON_parse sample_host metadata_payload = Some (JObject [(''frame_count'', JNumber 10)])"
  by (simp add: sample_host_def frame_payload_def metadata_payload_def)

text \<open>
  C8. A payload that \<^verbatim>\<open>JSON.parse\<close> rejects makes the handler emit the error
  notification \<^verbatim>\<open>Failed to parse metadata\<close> and nothing else, and the held snapshot is
  the one held before. A payload that parses replaces the held snapshot by the parsed
  value, whatever was held, and the handler emits one data-received notification that
  carries this value. Neither touches the running flag or the connection.
\<close>

theorem metadata_message_handling:
  assumes "s' = m_onmessage h d s"
  shows "(JSON_parse h d = None \<longrightarrow>
            metadata s' = metadata s
          \<and> m_emitted s' = m_emitted s @ [MError ''Failed to parse metadata''])
    \<and> (\<forall>v. JSON_parse h d = Some v \<longrightarrow>
            metadata s' = v
          \<and> m_emitted s' = m_emitted s @ [DataReceived v])
    \<and> m_isRunning s' = m_isRunning s
    \<and> metadataSource s' = metadataSource s
    \<and> m_sources s' = m_sources s"
  unfolding assms
  by (cases "JSON_parse h d") (simp_all add: m_onmessage_def m_onmessage_try_def)

theorem metadata_message_handling_witness:
  "JSON_parse sample_host metadata_payload = Some (JObject [(''frame_count'', JNumber 10)])
   \<and> metadata (m_onmessage sample_host metadata_payload
        (m_run page_metadata_props sample_host m_initial [MCallStart]))
       = JObject [(''frame_count'', JNumber 10)]
   \<and> m_emitted (m_onmessage sample_host metadata_payload
        (m_run page_metadata_props sample_host m_initial [MCallStart]))
       = [MStatusChanged True, DataReceived (JObject [(''frame_count'', JNumber 10)])]
   \<and> JSON_parse sample_host truncated_payload = None
   \<and> metadata (m_onmessage sample_host truncated_payload
        (m_onmessage sample_host metadata_payload
          (m_run page_metadata_props sample_host m_initial [MCallStart])))
       = JObject [(''frame_count'', JNumber 10)]
   \<and> m_emitted (m_onmessage sample_host truncated_payload
        (m_onmessage sample_host metadata_payload
          (m_run page_metadata_props sample_host m_initial [MCallStart])))
       = [MStatusChanged True, DataReceived (JObject [(''frame_count'', JNumber 10)]),
          MError ''Failed to parse metadata'']"
  using metadata_message_handling [OF refl, where h = sample_host and d = metadata_payload
      and s = "m_run page_metadata_props sample_host m_initial [MCallStart]"]
    metadata_message_handling [OF refl, where h = sample_host and d = truncated_payload
      and s = "m_onmessage sample_host metadata_payload
          (m_run page_metadata_props sample_host m_initial [MCallStart])"]
  unfolding sample_m_restart
  by (simp add: sample_parse_metadata sample_parse_truncated)

section \<open>Addresses\<close>

text \<open>
  C10. The request of \<^verbatim>\<open>resetState\<close> goes to \<^verbatim>\<open>http://localhost:8000/increment\<close> and
  the request of \<^verbatim>\<open>toggleAggressiveMode\<close> and of \<^verbatim>\<open>setAggressiveMode\<close> to
  \<^verbatim>\<open>http://localhost:8000/config\<close>, whatever the state and the mode; the page derives
  both stream URLs from \<^verbatim>\<open>http://192.168.66.120:8000\<close>, which is a different address,
  and neither stream URL starts with the address of the control requests.
\<close>

theorem control_requests_go_to_localhost:
  "(case snd (resetState s) of
      None \<Rightarrow> True
    | Some rq \<Rightarrow> req_url rq = ''http://localhost:8000'' @ ''/increment'')
   \<and> (case snd (toggleAggressiveMode s) of
        None \<Rightarrow> True
      | Some (rq, m') \<Rightarrow> req_url rq = ''http://localhost:8000'' @ ''/config'')
   \<and> (case snd (setAggressiveMode m s) of
        None \<Rightarrow> True
      | Some (rq, m') \<Rightarrow> req_url rq = ''http://localhost:8000'' @ ''/config'')
   \<and> baseUrl = ''http://192.168.66.120:8000''
   \<and> frameStreamUrl = baseUrl @ ''/stream/frame''
   \<and> metadataStreamUrl = baseUrl @ ''/stream/metadata''
   \<and> streamUrl page_video_props = frameStreamUrl
   \<and> m_streamUrl page_metadata_props = metadataStreamUrl
   \<and> baseUrl \<noteq> ''http://localhost:8000''
   \<and> \<not> prefix ''http://localhost:8000'' frameStreamUrl
   \<and> \<not> prefix ''http://localhost:8000'' metadataStreamUrl"
  by (simp add: resetState_def resetState_request_def toggleAggressiveMode_def
      setAggressiveMode_def config_request_def Let_def baseUrl_def frameStreamUrl_def
      metadataStreamUrl_def page_video_props_def page_metadata_props_def)

theorem control_requests_go_to_localhost_witness:
  "snd (resetState (initial_ctl (Some blank_image))) \<noteq> None
   \<and> req_url (the (snd (resetState (initial_ctl (Some blank_image)))))
       = ''http://localhost:8000/increment''
   \<and> snd (toggleAggressiveMode (initial_ctl (Some blank_image))) \<noteq> None
   \<and> req_url (fst (the (snd (toggleAggressiveMode (initial_ctl (Some blank_image))))))
       = ''http://localhost:8000/config''
   \<and> snd (setAggressiveMode Explosion (initial_ctl (Some blank_image))) \<noteq> None
   \<and> req_url (fst (the (snd (setAggressiveMode Explosion (initial_ctl (Some blank_image))))))
       = ''http://localhost:8000/config''
   \<and> frameStreamUrl = ''http://192.168.66.120:8000/stream/frame''
   \<and> metadataStreamUrl = ''http://192.168.66.120:8000/stream/metadata''"
  using control_requests_go_to_localhost
      [where s = "initial_ctl (Some blank_image)" and m = Explosion]
  by (simp add: initial_ctl_def initial_def resetState_def toggleAggressiveMode_def
      setAggressiveMode_def Let_def baseUrl_def split: option.splits prod.splits)

end
